theory Spec2Isabelle
  imports Complex_Main
begin

section \<open>Numbers, errors and arrays\<close>

text \<open>
  The arrays of the three function classes hold floating point numbers. They are modelled
  as lists of real numbers: rounding and overflow are outside the model, sums and products
  are exact. A division is the one operation of the source that leaves the reals: numpy
  answers a division by zero with \<open>inf\<close> or \<open>nan\<close> (and a warning, no exception), so a
  quotient is an \<open>npfloat\<close>, which is a real number or \<open>NonFinite\<close>. Every divisor of the
  source is computed from the arrays by sums and differences only, so divisors are reals.
\<close>

datatype npfloat = Finite real | NonFinite

definition np_div :: "real \<Rightarrow> real \<Rightarrow> npfloat" where
  "np_div a b = (if b = 0 then NonFinite else Finite (a / b))"

fun fdiv :: "npfloat \<Rightarrow> real \<Rightarrow> npfloat" where
  "fdiv (Finite a) b = np_div a b"
| "fdiv NonFinite b = NonFinite"

fun fadd :: "npfloat \<Rightarrow> npfloat \<Rightarrow> npfloat" where
  "fadd (Finite a) (Finite b) = Finite (a + b)"
| "fadd _ _ = NonFinite"

fun fmul :: "npfloat \<Rightarrow> npfloat \<Rightarrow> npfloat" where
  "fmul (Finite a) (Finite b) = Finite (a * b)"
| "fmul _ _ = NonFinite"

text \<open>
  The exceptions the modelled code can raise: a failed \<open>assert\<close>, an index out of range,
  numpy's refusal to broadcast two shapes, and a missing attribute.
\<close>

datatype error = AssertionError | IndexError | ValueError | AttributeError

definition bindE :: "error + 'a \<Rightarrow> ('a \<Rightarrow> error + 'b) \<Rightarrow> error + 'b" where
  "bindE m f = (case m of Inl e \<Rightarrow> Inl e | Inr v \<Rightarrow> f v)"

text \<open>
  A loop whose iterations do not depend on one another, as a map: the results in order,
  or the exception of the first iteration that raises.
\<close>

fun mapE :: "('a \<Rightarrow> error + 'b) \<Rightarrow> 'a list \<Rightarrow> error + 'b list" where
  "mapE g [] = Inr []"
| "mapE g (u # us) = bindE (g u) (\<lambda>v. bindE (mapE g us) (\<lambda>vs. Inr (v # vs)))"

text \<open>\<open>a[i]\<close>: a negative index counts from the end, an index out of range raises.\<close>

definition py_index :: "'a list \<Rightarrow> int \<Rightarrow> error + 'a" where
  "py_index xs i =
     (if i < - int (length xs) \<or> int (length xs) \<le> i then Inl IndexError
      else if i < 0 then Inr (xs ! nat (int (length xs) + i))
      else Inr (xs ! nat i))"

text \<open>
  \<open>a[lo:hi]\<close>: a bound left out is \<open>None\<close>; a negative bound counts from the end; bounds
  are clipped to the array, and a slice whose end is not after its start is empty.
\<close>

definition slice_bound :: "nat \<Rightarrow> int \<Rightarrow> nat" where
  "slice_bound n i = (if i < 0 then nat (max 0 (int n + i)) else min (nat i) n)"

definition py_slice :: "'a list \<Rightarrow> int option \<Rightarrow> int option \<Rightarrow> 'a list" where
  "py_slice xs lo hi =
     (let n = length xs;
          s = (case lo of None \<Rightarrow> 0 | Some i \<Rightarrow> slice_bound n i);
          e = (case hi of None \<Rightarrow> n | Some j \<Rightarrow> slice_bound n j)
      in take (e - s) (drop s xs))"

text \<open>
  An elementwise operation of numpy on two one-dimensional arrays: equal lengths pair up,
  an array of length one is broadcast, any other pair of lengths raises \<open>ValueError\<close>.
\<close>

definition np_binop :: "(real \<Rightarrow> real \<Rightarrow> 'a) \<Rightarrow> real list \<Rightarrow> real list \<Rightarrow> error + 'a list" where
  "np_binop f a b =
     (if length a = length b then Inr (map2 f a b)
      else if length a = 1 then Inr (map (f (hd a)) b)
      else if length b = 1 then Inr (map (\<lambda>u. f u (hd b)) a)
      else Inl ValueError)"

text \<open>
  \<open>np.searchsorted(a, v, side)\<close> on a sorted array, after numpy's documentation: the
  index \<open>i\<close> with \<open>a[i-1] < v <= a[i]\<close> for \<open>side='left'\<close> and with
  \<open>a[i-1] <= v < a[i]\<close> for \<open>side='right'\<close>.
\<close>

definition searchsorted_left :: "real list \<Rightarrow> real \<Rightarrow> int" where
  "searchsorted_left a v = int (length (takeWhile (\<lambda>e. e < v) a))"

definition searchsorted_right :: "real list \<Rightarrow> real \<Rightarrow> int" where
  "searchsorted_right a v = int (length (takeWhile (\<lambda>e. e \<le> v) a))"

text \<open>
  The \<open>interval\<close> argument of \<open>avrg\<close> and of the discrete \<open>integral\<close>: \<open>None\<close>, one pair,
  or a sequence of pairs.
\<close>

datatype interval = NoInterval | Pair real real | Pairs "(real \<times> real) list"

section \<open>PieceWiseConstFunc\<close>

record PieceWiseConstFunc =
  pwc_x :: "real list"
  pwc_y :: "real list"

definition pwc_integral :: "PieceWiseConstFunc \<Rightarrow> (real \<times> real) option \<Rightarrow> error + real" where
  "pwc_integral f interval =
     (case interval of
        None \<Rightarrow>
          bindE (np_binop (-) (py_slice (pwc_x f) (Some 1) None) (py_slice (pwc_x f) None (Some (- 1))))
            (\<lambda>d. bindE (np_binop (*) d (pwc_y f))
            (\<lambda>p. Inr (sum_list p)))
      | Some (lo, hi) \<Rightarrow>
          (let start_ind = searchsorted_right (pwc_x f) lo;
               end_ind = searchsorted_left (pwc_x f) hi - 1
           in if \<not> (start_ind > 0 \<and> end_ind < int (length (pwc_x f))) then Inl AssertionError
              else
                bindE (np_binop (-) (py_slice (pwc_x f) (Some (start_ind + 1)) (Some (end_ind + 1)))
                                    (py_slice (pwc_x f) (Some start_ind) (Some end_ind)))
                  (\<lambda>d. bindE (np_binop (*) d (py_slice (pwc_y f) (Some start_ind) (Some end_ind)))
                  (\<lambda>p. bindE (py_index (pwc_x f) start_ind)
                  (\<lambda>xs. bindE (py_index (pwc_y f) (start_ind - 1))
                  (\<lambda>ys. bindE (py_index (pwc_x f) end_ind)
                  (\<lambda>xe. bindE (py_index (pwc_y f) end_ind)
                  (\<lambda>ye. Inr (sum_list p + (xs - lo) * ys + (hi - xe) * ye)))))))))"

text \<open>The loop of \<open>avrg\<close> over several intervals: it adds up integrals and lengths.\<close>

fun pwc_avrg_loop :: "PieceWiseConstFunc \<Rightarrow> real \<Rightarrow> real \<Rightarrow> (real \<times> real) list \<Rightarrow> error + (real \<times> real)" where
  "pwc_avrg_loop f a int_length [] = Inr (a, int_length)"
| "pwc_avrg_loop f a int_length (ival # rest) =
     bindE (pwc_integral f (Some ival))
       (\<lambda>v. pwc_avrg_loop f (a + v) (int_length + (snd ival - fst ival)) rest)"

definition pwc_avrg :: "PieceWiseConstFunc \<Rightarrow> interval \<Rightarrow> error + npfloat" where
  "pwc_avrg f interval =
     (case interval of
        NoInterval \<Rightarrow>
          bindE (pwc_integral f None)
            (\<lambda>v. bindE (py_index (pwc_x f) (- 1))
            (\<lambda>xl. bindE (py_index (pwc_x f) 0)
            (\<lambda>x0. Inr (np_div v (xl - x0)))))
      | Pair lo hi \<Rightarrow>
          bindE (pwc_integral f (Some (lo, hi))) (\<lambda>v. Inr (np_div v (hi - lo)))
      | Pairs ivals \<Rightarrow>
          (if ivals = [] then Inl IndexError
           else bindE (pwc_avrg_loop f 0 0 ivals) (\<lambda>(a, int_length). Inr (np_div a int_length))))"

section \<open>DiscreteFunction\<close>

record DiscreteFunction =
  df_x :: "real list"
  df_y :: "real list"
  df_mp :: "real list"

definition get_indices :: "DiscreteFunction \<Rightarrow> real \<times> real \<Rightarrow> error + (int \<times> int)" where
  "get_indices f ival =
     (let start_ind = searchsorted_right (df_x f) (fst ival);
          end_ind = searchsorted_left (df_x f) (snd ival)
      in if \<not> (start_ind > 0 \<and> end_ind < int (length (df_x f))) then Inl AssertionError
         else Inr (start_ind, end_ind))"

fun df_integral_loop :: "DiscreteFunction \<Rightarrow> real \<Rightarrow> real \<Rightarrow> (real \<times> real) list \<Rightarrow> error + (real \<times> real)" where
  "df_integral_loop f val multiplicity [] = Inr (val, multiplicity)"
| "df_integral_loop f val multiplicity (ival # rest) =
     bindE (get_indices f ival)
       (\<lambda>(start_ind, end_ind).
          df_integral_loop f
            (val + sum_list (py_slice (df_y f) (Some start_ind) (Some end_ind)))
            (multiplicity + sum_list (py_slice (df_mp f) (Some start_ind) (Some end_ind)))
            rest)"

definition df_integral :: "DiscreteFunction \<Rightarrow> interval \<Rightarrow> error + npfloat" where
  "df_integral f interval =
     (case interval of
        NoInterval \<Rightarrow>
          Inr (np_div (sum_list (py_slice (df_y f) (Some 1) (Some (- 1))))
                      (sum_list (py_slice (df_mp f) (Some 1) (Some (- 1)))))
      | Pair lo hi \<Rightarrow>
          bindE (get_indices f (lo, hi))
            (\<lambda>(start_ind, end_ind).
               Inr (np_div (sum_list (py_slice (df_y f) (Some start_ind) (Some end_ind)))
                           (sum_list (py_slice (df_mp f) (Some start_ind) (Some end_ind)))))
      | Pairs ivals \<Rightarrow>
          (if ivals = [] then Inl IndexError
           else bindE (df_integral_loop f 0 0 ivals)
                  (\<lambda>(val, multiplicity). Inr (np_div val multiplicity))))"

definition df_avrg :: "DiscreteFunction \<Rightarrow> interval \<Rightarrow> error + npfloat" where
  "df_avrg f interval = df_integral f interval"

section \<open>PieceWiseLinFunc\<close>

record PieceWiseLinFunc =
  pwl_x :: "real list"
  pwl_y1 :: "real list"
  pwl_y2 :: "real list"

definition intermediate_value :: "real \<Rightarrow> real \<Rightarrow> real \<Rightarrow> real \<Rightarrow> real \<Rightarrow> npfloat" where
  "intermediate_value x0 x1 y0 y1 x = fadd (Finite y0) (np_div ((y1 - y0) * (x - x0)) (x1 - x0))"

definition pwl_integral :: "PieceWiseLinFunc \<Rightarrow> (real \<times> real) option \<Rightarrow> error + npfloat" where
  "pwl_integral f interval =
     (case interval of
        None \<Rightarrow>
          bindE (np_binop (-) (py_slice (pwl_x f) (Some 1) None) (py_slice (pwl_x f) None (Some (- 1))))
            (\<lambda>d. bindE (np_binop (+) (pwl_y1 f) (pwl_y2 f))
            (\<lambda>s. bindE (np_binop (*) (map (\<lambda>u. u * (1 / 2)) d) s)
            (\<lambda>p. Inr (Finite (sum_list p)))))
      | Some (lo, hi) \<Rightarrow>
          (let start_ind = searchsorted_right (pwl_x f) lo;
               end_ind = searchsorted_left (pwl_x f) hi - 1
           in if \<not> (start_ind > 0 \<and> end_ind < int (length (pwl_x f))) then Inl AssertionError
              else
                bindE (np_binop (-) (py_slice (pwl_x f) (Some (start_ind + 1)) (Some (end_ind + 1)))
                                    (py_slice (pwl_x f) (Some start_ind) (Some end_ind)))
                  (\<lambda>d. bindE (np_binop (+) (py_slice (pwl_y1 f) (Some start_ind) (Some end_ind))
                                            (py_slice (pwl_y2 f) (Some start_ind) (Some end_ind)))
                  (\<lambda>s. bindE (np_binop (*) (map (\<lambda>u. u * (1 / 2)) d) s)
                  (\<lambda>p. bindE (py_index (pwl_x f) start_ind)
                  (\<lambda>xs. bindE (py_index (pwl_y2 f) (start_ind - 1))
                  (\<lambda>y2s. bindE (py_index (pwl_x f) (start_ind - 1))
                  (\<lambda>x0. bindE (py_index (pwl_y1 f) (start_ind - 1))
                  (\<lambda>y1s. bindE (py_index (pwl_x f) end_ind)
                  (\<lambda>xe. bindE (py_index (pwl_y1 f) end_ind)
                  (\<lambda>y1e. bindE (py_index (pwl_x f) (end_ind + 1))
                  (\<lambda>x1. bindE (py_index (pwl_y2 f) end_ind)
                  (\<lambda>y2e.
                     Inr (fadd
                            (fadd (Finite (sum_list p))
                               (fmul (Finite ((xs - lo) * (1 / 2)))
                                  (fadd (Finite y2s) (intermediate_value x0 xs y1s y2s lo))))
                            (fmul (Finite ((hi - xe) * (1 / 2)))
                               (fadd (Finite y1e) (intermediate_value xe x1 y1e y2e hi)))))))))))))))))"

fun pwl_avrg_loop :: "PieceWiseLinFunc \<Rightarrow> npfloat \<Rightarrow> real \<Rightarrow> (real \<times> real) list \<Rightarrow> error + (npfloat \<times> real)" where
  "pwl_avrg_loop f a int_length [] = Inr (a, int_length)"
| "pwl_avrg_loop f a int_length (ival # rest) =
     bindE (pwl_integral f (Some ival))
       (\<lambda>v. pwl_avrg_loop f (fadd a v) (int_length + (snd ival - fst ival)) rest)"

definition pwl_avrg :: "PieceWiseLinFunc \<Rightarrow> interval \<Rightarrow> error + npfloat" where
  "pwl_avrg f interval =
     (case interval of
        NoInterval \<Rightarrow>
          bindE (pwl_integral f None)
            (\<lambda>v. bindE (py_index (pwl_x f) (- 1))
            (\<lambda>xl. bindE (py_index (pwl_x f) 0)
            (\<lambda>x0. Inr (fdiv v (xl - x0)))))
      | Pair lo hi \<Rightarrow>
          bindE (pwl_integral f (Some (lo, hi))) (\<lambda>v. Inr (fdiv v (hi - lo)))
      | Pairs ivals \<Rightarrow>
          (if ivals = [] then Inl IndexError
           else bindE (pwl_avrg_loop f (Finite 0) 0 ivals) (\<lambda>(a, int_length). Inr (fdiv a int_length))))"

section \<open>Well-formed functions\<close>

text \<open>
  The invariant of a piecewise constant function: at least two breakpoints, strictly
  increasing, and one value per interval.
\<close>

definition pwc_valid :: "PieceWiseConstFunc \<Rightarrow> bool" where
  "pwc_valid f = (sorted_wrt (<) (pwc_x f) \<and> 2 \<le> length (pwc_x f) \<and> length (pwc_y f) = length (pwc_x f) - 1)"


text \<open>The invariant of a piecewise linear function: as above, with two value arrays.\<close>

definition pwl_valid :: "PieceWiseLinFunc \<Rightarrow> bool" where
  "pwl_valid f = (sorted_wrt (<) (pwl_x f) \<and> 2 \<le> length (pwl_x f)
     \<and> length (pwl_y1 f) = length (pwl_x f) - 1 \<and> length (pwl_y2 f) = length (pwl_x f) - 1)"

section \<open>Averages over several intervals, as the specification words them\<close>

text \<open>
  The sum of a list of quotients and the summed length of a list of intervals. The
  specification's reading of \<open>avrg\<close> over a sequence of intervals is stated with them
  and with \<open>mapE\<close>, and compared with the loop of the source.
\<close>

fun fsum :: "npfloat list \<Rightarrow> npfloat" where
  "fsum [] = Finite 0"
| "fsum (v # vs) = fadd v (fsum vs)"

definition total_length :: "(real \<times> real) list \<Rightarrow> real" where
  "total_length ivals = (\<Sum>ival\<leftarrow>ivals. snd ival - fst ival)"

text \<open>
  The interpolation formula of the specification, \<open>y0 + (y1-y0)*(x-x0)/(x1-x0)\<close>, as a
  real number; \<open>intermediate_value\<close> above is the source's function.
\<close>

definition interpolate :: "real \<Rightarrow> real \<Rightarrow> real \<Rightarrow> real \<Rightarrow> real \<Rightarrow> real" where
  "interpolate x0 x1 y0 y1 t = y0 + (y1 - y0) * (t - x0) / (x1 - x0)"

section \<open>DiscreteFunction.get_plottable_data\<close>

text \<open>\<open>int(v)\<close> of a float: the integer part, truncated towards zero.\<close>

definition py_int :: "real \<Rightarrow> int" where
  "py_int r = (if 0 \<le> r then \<lfloor>r\<rfloor> else \<lceil>r\<rceil>)"

text \<open>
  The two inner \<open>while\<close> loops of the averaged profile. \<open>right_loop\<close> runs \<open>j\<close> upwards
  from \<open>i+1\<close> while \<open>j < len(y_plot)\<close>, \<open>left_loop\<close> runs \<open>j\<close> downwards from \<open>i-1\<close>
  while \<open>j >= 0\<close>; each carries the value \<open>y\<close> and the multiplicity of its side, and
  the \<open>break\<close> is the branch that returns.
\<close>

function right_loop :: "DiscreteFunction \<Rightarrow> real \<Rightarrow> int \<Rightarrow> npfloat \<Rightarrow> real \<Rightarrow> error + (npfloat \<times> real)" where
  "right_loop f expected_mp j y mp_r =
     (if j < int (length (df_y f)) then
        (case py_index (df_mp f) j of
           Inl err \<Rightarrow> Inl err
         | Inr mj \<Rightarrow>
             (if mp_r + mj < expected_mp then
                (case py_index (df_y f) j of
                   Inl err \<Rightarrow> Inl err
                 | Inr yj \<Rightarrow> right_loop f expected_mp (j + 1) (fadd y (Finite yj)) (mp_r + mj))
              else
                (case py_index (df_y f) j of
                   Inl err \<Rightarrow> Inl err
                 | Inr yj \<Rightarrow>
                     Inr (fadd y (fdiv (Finite (yj * (expected_mp - mp_r))) mj),
                          mp_r + (expected_mp - mp_r)))))
      else Inr (y, mp_r))"
  by pat_completeness auto
termination
  by (relation "measure (\<lambda>(f, expected_mp, j, y, mp_r). nat (int (length (df_y f)) - j))") auto

function left_loop :: "DiscreteFunction \<Rightarrow> real \<Rightarrow> int \<Rightarrow> npfloat \<Rightarrow> real \<Rightarrow> error + (npfloat \<times> real)" where
  "left_loop f expected_mp j y mp_l =
     (if j \<ge> 0 then
        (case py_index (df_mp f) j of
           Inl err \<Rightarrow> Inl err
         | Inr mj \<Rightarrow>
             (if mp_l + mj < expected_mp then
                (case py_index (df_y f) j of
                   Inl err \<Rightarrow> Inl err
                 | Inr yj \<Rightarrow> left_loop f expected_mp (j - 1) (fadd y (Finite yj)) (mp_l + mj))
              else
                (case py_index (df_y f) j of
                   Inl err \<Rightarrow> Inl err
                 | Inr yj \<Rightarrow>
                     Inr (fadd y (fdiv (Finite (yj * (expected_mp - mp_l))) mj),
                          mp_l + (expected_mp - mp_l)))))
      else Inr (y, mp_l))"
  by pat_completeness auto
termination
  by (relation "measure (\<lambda>(f, expected_mp, j, y, mp_l). nat (j + 1))") auto

text \<open>The body of the \<open>for\<close> loop: the entry \<open>y_plot[i]\<close>.\<close>

definition plot_point :: "DiscreteFunction \<Rightarrow> real \<Rightarrow> int \<Rightarrow> error + npfloat" where
  "plot_point f expected_mp i =
     bindE (py_index (df_mp f) i)
       (\<lambda>mi. if mi \<ge> expected_mp then
                bindE (py_index (df_y f) i) (\<lambda>yi. Inr (np_div yi mi))
              else
                bindE (py_index (df_y f) i)
                  (\<lambda>yi. bindE (right_loop f expected_mp (i + 1) (Finite yi) mi)
                  (\<lambda>(y1, mp_r). bindE (left_loop f expected_mp (i - 1) y1 mi)
                  (\<lambda>(y2, mp_l). Inr (fdiv y2 (mp_l + mp_r - mi))))))"

definition get_plottable_data :: "DiscreteFunction \<Rightarrow> int \<Rightarrow> error + (real list \<times> npfloat list)" where
  "get_plottable_data f averaging_window_size =
     (if averaging_window_size > 0 then
        bindE (py_index (df_mp f) 0)
          (\<lambda>m0. let expected_mp = real_of_int ((averaging_window_size + 1) * py_int m0)
                in bindE (mapE (plot_point f expected_mp) (map int [0..<length (df_y f)]))
                     (\<lambda>y_plot. Inr (df_x f, y_plot)))
      else
        bindE (np_binop np_div (df_y f) (df_mp f)) (\<lambda>q. Inr (df_x f, q)))"

text \<open>
  The smoothing as the specification words it. \<open>expand_side\<close> walks the neighbours of
  one side in the order in which the window grows: a neighbour is added in full while the
  accumulated multiplicity stays below the target; the first neighbour that reaches the
  target adds the fraction \<open>y*(expected - acc)/mp\<close> and ends the side; the end of the
  array ends the side as well. \<open>smoothed_value\<close> is the output at a point: its own value
  and both sides, over its own multiplicity, counted once, and what both sides added.
\<close>

fun expand_side :: "real \<Rightarrow> real \<Rightarrow> (real \<times> real) list \<Rightarrow> npfloat \<times> real" where
  "expand_side expected acc [] = (Finite 0, acc)"
| "expand_side expected acc ((yj, mj) # rest) =
     (if acc + mj < expected then
        (case expand_side expected (acc + mj) rest of (v, acc') \<Rightarrow> (fadd (Finite yj) v, acc'))
      else (fdiv (Finite (yj * (expected - acc))) mj, expected))"

definition smoothed_value :: "DiscreteFunction \<Rightarrow> real \<Rightarrow> nat \<Rightarrow> npfloat" where
  "smoothed_value f expected i =
     (if df_mp f ! i \<ge> expected then np_div (df_y f ! i) (df_mp f ! i)
      else
        (case expand_side expected (df_mp f ! i) (drop (i + 1) (zip (df_y f) (df_mp f))) of
           (vr, ar) \<Rightarrow>
             (case expand_side expected (df_mp f ! i) (rev (take i (zip (df_y f) (df_mp f)))) of
                (vl, al) \<Rightarrow>
                  fdiv (fadd (fadd (Finite (df_y f ! i)) vr) vl)
                       (df_mp f ! i + (ar - df_mp f ! i) + (al - df_mp f ! i)))))"

section \<open>A store of arrays and objects\<close>

text \<open>
  \<open>add\<close> and \<open>mul_scalar\<close> change an object, and \<open>mul_scalar\<close> changes arrays in
  place, so claims about copies need the identities of objects and arrays. A store
  holds the arrays and the objects, each under an address; an object holds the addresses
  of its arrays.
\<close>

type_synonym addr = nat

datatype object = PWC addr addr | PWL addr addr addr | DF addr addr addr

record heap =
  arrays :: "real list list"
  objects :: "object list"

text \<open>
  \<open>np.array(content)\<close> makes a new array that holds a copy of its argument: the new
  address is the next free one. \<open>new_object\<close> creates an instance.
\<close>

definition np_array :: "real list \<Rightarrow> heap \<Rightarrow> addr \<times> heap" where
  "np_array content h = (length (arrays h), h\<lparr>arrays := arrays h @ [content]\<rparr>)"

definition new_object :: "object \<Rightarrow> heap \<Rightarrow> addr \<times> heap" where
  "new_object ob h = (length (objects h), h\<lparr>objects := objects h @ [ob]\<rparr>)"

text \<open>The three constructors: every argument is converted by \<open>np.array\<close>, hence copied.\<close>

definition PieceWiseConstFunc_init :: "real list \<Rightarrow> real list \<Rightarrow> heap \<Rightarrow> addr \<times> heap" where
  "PieceWiseConstFunc_init x y h =
     (case np_array x h of (ax, h1) \<Rightarrow>
      case np_array y h1 of (ay, h2) \<Rightarrow> new_object (PWC ax ay) h2)"

definition PieceWiseLinFunc_init :: "real list \<Rightarrow> real list \<Rightarrow> real list \<Rightarrow> heap \<Rightarrow> addr \<times> heap" where
  "PieceWiseLinFunc_init x y1 y2 h =
     (case np_array x h of (ax, h1) \<Rightarrow>
      case np_array y1 h1 of (ay1, h2) \<Rightarrow>
      case np_array y2 h2 of (ay2, h3) \<Rightarrow> new_object (PWL ax ay1 ay2) h3)"

definition DiscreteFunction_init :: "real list \<Rightarrow> real list \<Rightarrow> real list \<Rightarrow> heap \<Rightarrow> addr \<times> heap" where
  "DiscreteFunction_init x y multiplicity h =
     (case np_array x h of (ax, h1) \<Rightarrow>
      case np_array y h1 of (ay, h2) \<Rightarrow>
      case np_array multiplicity h2 of (amp, h3) \<Rightarrow> new_object (DF ax ay amp) h3)"

text \<open>\<open>copy\<close> calls the constructor of its class on the arrays of \<open>self\<close>.\<close>

definition copy :: "addr \<Rightarrow> heap \<Rightarrow> addr \<times> heap" where
  "copy self h =
     (case objects h ! self of
        PWC x y \<Rightarrow> PieceWiseConstFunc_init (arrays h ! x) (arrays h ! y) h
      | PWL x y1 y2 \<Rightarrow> PieceWiseLinFunc_init (arrays h ! x) (arrays h ! y1) (arrays h ! y2) h
      | DF x y mp \<Rightarrow> DiscreteFunction_init (arrays h ! x) (arrays h ! y) (arrays h ! mp) h)"

text \<open>
  \<open>a *= fac\<close> on an array multiplies in place: the array at that address changes, and
  with it what every reference to it sees. \<open>mul_scalar\<close> does so on \<open>y\<close>, on \<open>y1\<close> and
  \<open>y2\<close>, and on \<open>y\<close> alone (not \<open>mp\<close>) for the discrete function.
\<close>

definition imul :: "addr \<Rightarrow> real \<Rightarrow> heap \<Rightarrow> heap" where
  "imul a fac h = h\<lparr>arrays := (arrays h)[a := map (\<lambda>v. v * fac) (arrays h ! a)]\<rparr>"

definition mul_scalar :: "addr \<Rightarrow> real \<Rightarrow> heap \<Rightarrow> heap" where
  "mul_scalar self fac h =
     (case objects h ! self of
        PWC x y \<Rightarrow> imul y fac h
      | PWL x y1 y2 \<Rightarrow> imul y2 fac (imul y1 fac h)
      | DF x y mp \<Rightarrow> imul y fac h)"

text \<open>
  Reading an attribute of the other operand of \<open>add\<close>, which may be an instance of
  another class: a missing attribute raises \<open>AttributeError\<close>.
\<close>

fun attr_x :: "object \<Rightarrow> addr" where
  "attr_x (PWC x y) = x"
| "attr_x (PWL x y1 y2) = x"
| "attr_x (DF x y mp) = x"

fun attr_y :: "object \<Rightarrow> error + addr" where
  "attr_y (PWC x y) = Inr y"
| "attr_y (PWL x y1 y2) = Inl AttributeError"
| "attr_y (DF x y mp) = Inr y"

fun attr_y1 :: "object \<Rightarrow> error + addr" where
  "attr_y1 (PWL x y1 y2) = Inr y1"
| "attr_y1 _ = Inl AttributeError"

fun attr_y2 :: "object \<Rightarrow> error + addr" where
  "attr_y2 (PWL x y1 y2) = Inr y2"
| "attr_y2 _ = Inl AttributeError"

fun attr_mp :: "object \<Rightarrow> error + addr" where
  "attr_mp (DF x y mp) = Inr mp"
| "attr_mp _ = Inl AttributeError"

text \<open>
  The merge routines that \<open>add\<close> imports (\<open>cython_add\<close>, with \<open>python_backend\<close> as its
  fallback) are not part of the sources at hand. They are parameters of the model: each
  takes the contents of the arrays of both operands and returns the contents of new
  arrays, or raises.
\<close>

record backend =
  add_piece_wise_const_impl ::
    "real list \<Rightarrow> real list \<Rightarrow> real list \<Rightarrow> real list \<Rightarrow> error + (real list \<times> real list)"
  add_piece_wise_lin_impl ::
    "real list \<Rightarrow> real list \<Rightarrow> real list \<Rightarrow> real list \<Rightarrow> real list \<Rightarrow> real list
       \<Rightarrow> error + (real list \<times> real list \<times> real list)"
  add_discrete_function_impl ::
    "real list \<Rightarrow> real list \<Rightarrow> real list \<Rightarrow> real list \<Rightarrow> real list \<Rightarrow> real list
       \<Rightarrow> error + (real list \<times> real list \<times> real list)"

text \<open>The two \<open>assert\<close>s of \<open>add\<close>: both operands start and end at the same point.\<close>

definition same_interval :: "real list \<Rightarrow> real list \<Rightarrow> error + unit" where
  "same_interval sx fx =
     bindE (py_index sx 0) (\<lambda>s0. bindE (py_index fx 0) (\<lambda>f0.
       if s0 \<noteq> f0 then Inl AssertionError
       else bindE (py_index sx (- 1)) (\<lambda>sl. bindE (py_index fx (- 1)) (\<lambda>fl.
         if sl \<noteq> fl then Inl AssertionError else Inr ()))))"

text \<open>
  \<open>add\<close> checks the interval, calls the merge routine of the class of \<open>self\<close> and binds
  the attributes of \<open>self\<close> to the arrays it returns, which are new arrays of the store.
\<close>

definition add :: "backend \<Rightarrow> addr \<Rightarrow> addr \<Rightarrow> heap \<Rightarrow> error + heap" where
  "add bk self f h =
     (let other = objects h ! f in
      case objects h ! self of
        PWC x y \<Rightarrow>
          bindE (same_interval (arrays h ! x) (arrays h ! attr_x other)) (\<lambda>_.
          bindE (attr_y other) (\<lambda>fy.
          bindE (add_piece_wise_const_impl bk (arrays h ! x) (arrays h ! y)
                   (arrays h ! attr_x other) (arrays h ! fy)) (\<lambda>(nx, ny).
            case np_array nx h of (ax, h1) \<Rightarrow>
            case np_array ny h1 of (ay, h2) \<Rightarrow>
              Inr (h2\<lparr>objects := (objects h2)[self := PWC ax ay]\<rparr>))))
      | PWL x y1 y2 \<Rightarrow>
          bindE (same_interval (arrays h ! x) (arrays h ! attr_x other)) (\<lambda>_.
          bindE (attr_y1 other) (\<lambda>fy1.
          bindE (attr_y2 other) (\<lambda>fy2.
          bindE (add_piece_wise_lin_impl bk (arrays h ! x) (arrays h ! y1) (arrays h ! y2)
                   (arrays h ! attr_x other) (arrays h ! fy1) (arrays h ! fy2)) (\<lambda>(nx, ny1, ny2).
            case np_array nx h of (ax, h1) \<Rightarrow>
            case np_array ny1 h1 of (ay1, h2) \<Rightarrow>
            case np_array ny2 h2 of (ay2, h3) \<Rightarrow>
              Inr (h3\<lparr>objects := (objects h3)[self := PWL ax ay1 ay2]\<rparr>)))))
      | DF x y mp \<Rightarrow>
          bindE (same_interval (arrays h ! x) (arrays h ! attr_x other)) (\<lambda>_.
          bindE (attr_y other) (\<lambda>fy.
          bindE (attr_mp other) (\<lambda>fmp.
          bindE (add_discrete_function_impl bk (arrays h ! x) (arrays h ! y) (arrays h ! mp)
                   (arrays h ! attr_x other) (arrays h ! fy) (arrays h ! fmp)) (\<lambda>(nx, ny, nmp).
            case np_array nx h of (ax, h1) \<Rightarrow>
            case np_array ny h1 of (ay, h2) \<Rightarrow>
            case np_array nmp h2 of (amp, h3) \<Rightarrow>
              Inr (h3\<lparr>objects := (objects h3)[self := DF ax ay amp]\<rparr>))))))"

text \<open>
  \<open>average_profile\<close>: the \<open>for\<close> loop over \<open>i = 1, ..., len(profiles) - 1\<close> and the
  function itself.
\<close>

function add_profiles :: "backend \<Rightarrow> addr \<Rightarrow> addr list \<Rightarrow> nat \<Rightarrow> heap \<Rightarrow> error + heap" where
  "add_profiles bk avrg_profile profiles i h =
     (if i < length profiles then
        (case add bk avrg_profile (profiles ! i) h of
           Inl err \<Rightarrow> Inl err
         | Inr h' \<Rightarrow> add_profiles bk avrg_profile profiles (i + 1) h')
      else Inr h)"
  by pat_completeness auto
termination
  by (relation "measure (\<lambda>(bk, avrg_profile, profiles, i, h). length profiles - i)") auto

definition average_profile :: "backend \<Rightarrow> addr list \<Rightarrow> heap \<Rightarrow> error + (addr \<times> heap)" where
  "average_profile bk profiles h =
     (if \<not> length profiles > 1 then Inl AssertionError
      else
        case copy (profiles ! 0) h of (avrg_profile, h1) \<Rightarrow>
          bindE (add_profiles bk avrg_profile profiles 1 h1) (\<lambda>h2.
            Inr (avrg_profile, mul_scalar avrg_profile (1 / real (length profiles)) h2)))"


section \<open>Objects as values\<close>

text \<open>
  What an object is at a moment: the contents of its arrays. \<open>merge\<close>, \<open>merge_all\<close> and
  \<open>rescale\<close> are \<open>add\<close>, its repetition from left to right and \<open>mul_scalar\<close> on
  these values, as the specification words the average of profiles; \<open>almost_equal\<close> only
  reads its operands and is modelled on values, with \<open>decimal = 14\<close>.
\<close>

datatype profile = ConstP PieceWiseConstFunc | LinP PieceWiseLinFunc | DiscP DiscreteFunction

definition value_of :: "heap \<Rightarrow> addr \<Rightarrow> profile" where
  "value_of h p =
     (case objects h ! p of
        PWC x y \<Rightarrow> ConstP \<lparr>pwc_x = arrays h ! x, pwc_y = arrays h ! y\<rparr>
      | PWL x y1 y2 \<Rightarrow> LinP \<lparr>pwl_x = arrays h ! x, pwl_y1 = arrays h ! y1, pwl_y2 = arrays h ! y2\<rparr>
      | DF x y mp \<Rightarrow> DiscP \<lparr>df_x = arrays h ! x, df_y = arrays h ! y, df_mp = arrays h ! mp\<rparr>)"

text \<open>
  The addresses an object holds; a store is well formed when they are all allocated; a
  store extends another when the arrays and objects of the other are still there,
  unchanged.
\<close>

fun refs :: "object \<Rightarrow> addr list" where
  "refs (PWC x y) = [x, y]"
| "refs (PWL x y1 y2) = [x, y1, y2]"
| "refs (DF x y mp) = [x, y, mp]"

definition wf_heap :: "heap \<Rightarrow> bool" where
  "wf_heap h = list_all (\<lambda>ob. list_all (\<lambda>a. a < length (arrays h)) (refs ob)) (objects h)"

definition extends :: "heap \<Rightarrow> heap \<Rightarrow> bool" where
  "extends h' h = (take (length (arrays h)) (arrays h') = arrays h
                   \<and> take (length (objects h)) (objects h') = objects h)"

fun profile_x :: "profile \<Rightarrow> real list" where
  "profile_x (ConstP f) = pwc_x f"
| "profile_x (LinP f) = pwl_x f"
| "profile_x (DiscP f) = df_x f"

fun profile_y :: "profile \<Rightarrow> error + real list" where
  "profile_y (ConstP f) = Inr (pwc_y f)"
| "profile_y (LinP f) = Inl AttributeError"
| "profile_y (DiscP f) = Inr (df_y f)"

fun profile_y1 :: "profile \<Rightarrow> error + real list" where
  "profile_y1 (LinP f) = Inr (pwl_y1 f)"
| "profile_y1 _ = Inl AttributeError"

fun profile_y2 :: "profile \<Rightarrow> error + real list" where
  "profile_y2 (LinP f) = Inr (pwl_y2 f)"
| "profile_y2 _ = Inl AttributeError"

fun profile_mp :: "profile \<Rightarrow> error + real list" where
  "profile_mp (DiscP f) = Inr (df_mp f)"
| "profile_mp _ = Inl AttributeError"

fun merge :: "backend \<Rightarrow> profile \<Rightarrow> profile \<Rightarrow> error + profile" where
  "merge bk (ConstP f) q =
     bindE (same_interval (pwc_x f) (profile_x q)) (\<lambda>_.
     bindE (profile_y q) (\<lambda>qy.
     bindE (add_piece_wise_const_impl bk (pwc_x f) (pwc_y f) (profile_x q) qy) (\<lambda>(nx, ny).
       Inr (ConstP \<lparr>pwc_x = nx, pwc_y = ny\<rparr>))))"
| "merge bk (LinP f) q =
     bindE (same_interval (pwl_x f) (profile_x q)) (\<lambda>_.
     bindE (profile_y1 q) (\<lambda>qy1.
     bindE (profile_y2 q) (\<lambda>qy2.
     bindE (add_piece_wise_lin_impl bk (pwl_x f) (pwl_y1 f) (pwl_y2 f) (profile_x q) qy1 qy2) (\<lambda>(nx, ny1, ny2).
       Inr (LinP \<lparr>pwl_x = nx, pwl_y1 = ny1, pwl_y2 = ny2\<rparr>)))))"
| "merge bk (DiscP f) q =
     bindE (same_interval (df_x f) (profile_x q)) (\<lambda>_.
     bindE (profile_y q) (\<lambda>qy.
     bindE (profile_mp q) (\<lambda>qmp.
     bindE (add_discrete_function_impl bk (df_x f) (df_y f) (df_mp f) (profile_x q) qy qmp) (\<lambda>(nx, ny, nmp).
       Inr (DiscP \<lparr>df_x = nx, df_y = ny, df_mp = nmp\<rparr>)))))"

fun merge_all :: "backend \<Rightarrow> profile \<Rightarrow> profile list \<Rightarrow> error + profile" where
  "merge_all bk acc [] = Inr acc"
| "merge_all bk acc (q # qs) = bindE (merge bk acc q) (\<lambda>acc'. merge_all bk acc' qs)"

fun rescale :: "real \<Rightarrow> profile \<Rightarrow> profile" where
  "rescale fac (ConstP f) = ConstP (f\<lparr>pwc_y := map (\<lambda>v. v * fac) (pwc_y f)\<rparr>)"
| "rescale fac (LinP f) =
     LinP (f\<lparr>pwl_y1 := map (\<lambda>v. v * fac) (pwl_y1 f), pwl_y2 := map (\<lambda>v. v * fac) (pwl_y2 f)\<rparr>)"
| "rescale fac (DiscP f) = DiscP (f\<lparr>df_y := map (\<lambda>v. v * fac) (df_y f)\<rparr>)"

definition np_allclose :: "real list \<Rightarrow> real list \<Rightarrow> real \<Rightarrow> error + bool" where
  "np_allclose a b atol = bindE (np_binop (\<lambda>u v. \<bar>u - v\<bar> \<le> atol) a b) (\<lambda>bs. Inr (list_all (\<lambda>t. t) bs))"

definition eps :: real where
  "eps = 1 / 10 ^ 14"

fun almost_equal :: "profile \<Rightarrow> profile \<Rightarrow> error + bool" where
  "almost_equal (ConstP f) other =
     bindE (np_allclose (pwc_x f) (profile_x other) eps) (\<lambda>cx.
       if \<not> cx then Inr False
       else bindE (profile_y other) (\<lambda>oy. np_allclose (pwc_y f) oy eps))"
| "almost_equal (LinP f) other =
     bindE (np_allclose (pwl_x f) (profile_x other) eps) (\<lambda>cx.
       if \<not> cx then Inr False
       else bindE (profile_y1 other) (\<lambda>oy1. bindE (np_allclose (pwl_y1 f) oy1 eps) (\<lambda>c1.
         if \<not> c1 then Inr False
         else bindE (profile_y2 other) (\<lambda>oy2. np_allclose (pwl_y2 f) oy2 eps))))"
| "almost_equal (DiscP f) other =
     bindE (np_allclose (df_x f) (profile_x other) eps) (\<lambda>cx.
       if \<not> cx then Inr False
       else bindE (profile_y other) (\<lambda>oy. bindE (np_allclose (df_y f) oy eps) (\<lambda>c1.
         if \<not> c1 then Inr False
         else bindE (profile_mp other) (\<lambda>omp. np_allclose (df_mp f) omp eps))))"


text \<open>
  For the proofs: the store after \<open>self\<close> was bound to new arrays holding a value, and
  the invariant of the loop of \<open>average_profile\<close>: one object was created since the
  store \<open>hb\<close>, and it owns arrays created since, each once.
\<close>

fun profile_arrays :: "profile \<Rightarrow> real list list" where
  "profile_arrays (ConstP f) = [pwc_x f, pwc_y f]"
| "profile_arrays (LinP f) = [pwl_x f, pwl_y1 f, pwl_y2 f]"
| "profile_arrays (DiscP f) = [df_x f, df_y f, df_mp f]"

fun located :: "profile \<Rightarrow> addr \<Rightarrow> object" where
  "located (ConstP f) n = PWC n (n + 1)"
| "located (LinP f) n = PWL n (n + 1) (n + 2)"
| "located (DiscP f) n = DF n (n + 1) (n + 2)"

definition store :: "profile \<Rightarrow> addr \<Rightarrow> heap \<Rightarrow> heap" where
  "store v self h =
     h\<lparr>arrays := arrays h @ profile_arrays v,
       objects := (objects h)[self := located v (length (arrays h))]\<rparr>"

definition accumulating :: "heap \<Rightarrow> heap \<Rightarrow> bool" where
  "accumulating hb h =
     (length (objects h) = Suc (length (objects hb)) \<and> extends h hb
      \<and> list_all (\<lambda>a. length (arrays hb) \<le> a \<and> a < length (arrays h)) (refs (last (objects h)))
      \<and> distinct (refs (last (objects h))))"

section \<open>Basic facts about the array operations\<close>

lemma bindE_Inr [simp]: "bindE (Inr v) f = f v"
  by (simp add: bindE_def)

lemma bindE_Inl [simp]: "bindE (Inl e) f = Inl e"
  by (simp add: bindE_def)

lemma py_index_nat: "i < length xs \<Longrightarrow> py_index xs (int i) = Inr (xs ! i)"
  by (simp add: py_index_def)

lemma py_slice_nat:
  "py_slice xs (Some (int s)) (Some (int e)) = take (min e (length xs) - min s (length xs)) (drop (min s (length xs)) xs)"
  by (simp add: py_slice_def slice_bound_def Let_def)

lemma py_slice_nat_in:
  "s \<le> length xs \<Longrightarrow> e \<le> length xs \<Longrightarrow> py_slice xs (Some (int s)) (Some (int e)) = take (e - s) (drop s xs)"
  by (simp add: py_slice_nat)

lemma np_binop_same: "length a = length b \<Longrightarrow> np_binop f a b = Inr (map2 f a b)"
  by (simp add: np_binop_def)

lemma takeWhile_count_pos: "xs \<noteq> [] \<Longrightarrow> P (hd xs) \<Longrightarrow> 0 < length (takeWhile P xs)"
  by (cases xs) simp_all

lemma takeWhile_count_less: "xs \<noteq> [] \<Longrightarrow> \<not> P (last xs) \<Longrightarrow> length (takeWhile P xs) < length xs"
proof (rule ccontr)
  assume ne: "xs \<noteq> []" and np: "\<not> P (last xs)" and "\<not> length (takeWhile P xs) < length xs"
  then have "length (takeWhile P xs) = length xs"
    using length_takeWhile_le [of P xs] by simp
  then have "takeWhile P xs = xs"
    using takeWhile_eq_take [of P xs] by simp
  then have "\<forall>u \<in> set xs. P u"
    by (simp add: takeWhile_eq_all_conv)
  with ne np show False by simp
qed

lemma takeWhile_count_before: "i < length (takeWhile P xs) \<Longrightarrow> P (xs ! i)"
  using takeWhile_nth [of i P xs] nth_mem [of i "takeWhile P xs"] set_takeWhileD [of "xs ! i" P xs]
  by simp

lemma takeWhile_count_at: "length (takeWhile P xs) < length xs \<Longrightarrow> \<not> P (xs ! length (takeWhile P xs))"
  by (rule nth_length_takeWhile)

lemma sum_list_map2_window:
  fixes g :: "real \<Rightarrow> real \<Rightarrow> real"
  assumes "s + k \<le> length us" "s + k \<le> length vs"
  shows "sum_list (map2 g (take k (drop s us)) (take k (drop s vs))) = (\<Sum>i = s..<s + k. g (us ! i) (vs ! i))"
proof -
  have len: "length (map2 g (take k (drop s us)) (take k (drop s vs))) = k"
    using assms by simp
  have "sum_list (map2 g (take k (drop s us)) (take k (drop s vs)))
        = (\<Sum>i = 0..<k. map2 g (take k (drop s us)) (take k (drop s vs)) ! i)"
    using sum_list_sum_nth [of "map2 g (take k (drop s us)) (take k (drop s vs))"] len by simp
  also have "\<dots> = (\<Sum>i = 0..<k. g (us ! (s + i)) (vs ! (s + i)))"
    using assms by (intro sum.cong) simp_all
  also have "\<dots> = (\<Sum>i = s..<s + k. g (us ! i) (vs ! i))"
    using sum.shift_bounds_nat_ivl [of "\<lambda>i. g (us ! i) (vs ! i)" 0 s k] by (simp add: add.commute)
  finally show ?thesis .
qed


lemma window_sum_const:
  fixes x y :: "real list"
  assumes "s + k < length x" "s + k \<le> length y"
  shows "sum_list (map2 (*) (map2 (-) (take k (drop (Suc s) x)) (take k (drop s x))) (take k (drop s y)))
         = (\<Sum>i = s..<s + k. (x ! (i + 1) - x ! i) * y ! i)"
proof -
  let ?L = "map2 (*) (map2 (-) (take k (drop (Suc s) x)) (take k (drop s x))) (take k (drop s y))"
  have len: "length ?L = k"
    using assms by simp
  have "sum_list ?L = (\<Sum>i = 0..<k. ?L ! i)"
    using sum_list_sum_nth [of ?L] len by simp
  also have "\<dots> = (\<Sum>i = 0..<k. (x ! (s + i + 1) - x ! (s + i)) * y ! (s + i))"
    using assms by (intro sum.cong) simp_all
  also have "\<dots> = (\<Sum>i = s..<s + k. (x ! (i + 1) - x ! i) * y ! i)"
    using sum.shift_bounds_nat_ivl [of "\<lambda>i. (x ! (i + 1) - x ! i) * y ! i" 0 s k]
    by (simp add: add.commute)
  finally show ?thesis .
qed

lemma searchsorted_right_bounds:
  assumes "xs \<noteq> []" "hd xs \<le> a" "a < last xs" "s = nat (searchsorted_right xs a)"
  shows "searchsorted_right xs a = int s" "0 < s" "s < length xs" "xs ! (s - 1) \<le> a" "a < xs ! s"
proof -
  have s: "s = length (takeWhile (\<lambda>u. u \<le> a) xs)"
    using assms(4) by (simp add: searchsorted_right_def)
  show "searchsorted_right xs a = int s"
    by (simp add: s searchsorted_right_def)
  show pos: "0 < s"
    unfolding s using assms(1,2) by (rule takeWhile_count_pos)
  show less: "s < length xs"
    unfolding s using assms(1,3) by (intro takeWhile_count_less) simp_all
  show "xs ! (s - 1) \<le> a"
    using takeWhile_count_before [of "s - 1" "\<lambda>u. u \<le> a" xs] pos s by simp
  show "a < xs ! s"
    using takeWhile_count_at [of "\<lambda>u. u \<le> a" xs] less s by simp
qed

lemma searchsorted_left_bounds:
  assumes "xs \<noteq> []" "hd xs < b" "b \<le> last xs" "e = nat (searchsorted_left xs b - 1)"
  shows "searchsorted_left xs b - 1 = int e" "e + 1 < length xs" "xs ! e < b" "b \<le> xs ! (e + 1)"
proof -
  define m where "m = length (takeWhile (\<lambda>u. u < b) xs)"
  have pos: "0 < m"
    unfolding m_def using assms(1,2) by (rule takeWhile_count_pos)
  have less: "m < length xs"
    unfolding m_def using assms(1,3) by (intro takeWhile_count_less) simp_all
  have e: "e = m - 1"
    using assms(4) by (simp add: searchsorted_left_def m_def)
  have ss: "searchsorted_left xs b = int m"
    by (simp add: searchsorted_left_def m_def)
  have "int e = int m - 1"
    using pos e by linarith
  then show "searchsorted_left xs b - 1 = int e"
    using ss by linarith
  show "e + 1 < length xs"
    using pos less e by simp
  have "m - 1 < length (takeWhile (\<lambda>u. u < b) xs)"
    using pos by (simp add: m_def)
  then show "xs ! e < b"
    unfolding e by (rule takeWhile_count_before)
  have "e + 1 = m"
    using pos e by linarith
  then show "b \<le> xs ! (e + 1)"
    using takeWhile_count_at [of "\<lambda>u. u < b" xs] less by (simp add: m_def not_less)
qed


section \<open>The integral of a piecewise constant function over an interval\<close>

text \<open>
  Claim C1, as amended. For a piecewise constant function with strictly increasing
  breakpoints \<open>x\<close> (length \<open>N+1\<close>) and values \<open>y\<close> (length \<open>N\<close>), and bounds
  \<open>x[0] \<le> a < x[N]\<close> and \<open>x[0] < b \<le> x[N]\<close>, \<open>integral([a,b])\<close> returns the sum over
  the intervals \<open>[start_ind, end_ind)\<close> of \<open>(x[i+1]-x[i])*y[i]\<close>, plus
  \<open>(x[start_ind]-a)*y[start_ind-1]\<close> and \<open>(b-x[end_ind])*y[end_ind]\<close>, where
  \<open>start_ind\<close> and \<open>end_ind\<close> are the located indices: \<open>x[start_ind-1] \<le> a < x[start_ind]\<close>
  and \<open>x[end_ind] < b \<le> x[end_ind+1]\<close>. For \<open>x=[0,1,2,3]\<close>, \<open>y=[1,2,3]\<close> the integral
  over \<open>[0.5, 2.5]\<close> is \<open>4\<close>.
\<close>

theorem pwc_integral_interval:
  assumes v: "pwc_valid f"
    and a: "hd (pwc_x f) \<le> a" "a < last (pwc_x f)"
    and b: "hd (pwc_x f) < b" "b \<le> last (pwc_x f)"
    and s: "s = nat (searchsorted_right (pwc_x f) a)"
    and e: "e = nat (searchsorted_left (pwc_x f) b - 1)"
  shows "pwc_integral f (Some (a, b)) =
           Inr ((\<Sum>i = s..<e. (pwc_x f ! (i + 1) - pwc_x f ! i) * pwc_y f ! i)
                + (pwc_x f ! s - a) * pwc_y f ! (s - 1)
                + (b - pwc_x f ! e) * pwc_y f ! e)
         \<and> 0 < s \<and> s < length (pwc_x f) \<and> e < length (pwc_y f)
         \<and> pwc_x f ! (s - 1) \<le> a \<and> a < pwc_x f ! s
         \<and> pwc_x f ! e < b \<and> b \<le> pwc_x f ! (e + 1)"
proof -
  let ?x = "pwc_x f" and ?y = "pwc_y f"
  have ne: "?x \<noteq> []" and leny: "length ?y = length ?x - 1"
    using v by (auto simp: pwc_valid_def)
  note S = searchsorted_right_bounds [OF ne a s]
  note E = searchsorted_left_bounds [OF ne b e]
  have sl1: "py_slice ?x (Some (int s + 1)) (Some (int e + 1)) = take (e - s) (drop (Suc s) ?x)"
    using py_slice_nat_in [of "Suc s" ?x "Suc e"] S(3) E(2) by (simp add: add.commute)
  have sl2: "py_slice ?x (Some (int s)) (Some (int e)) = take (e - s) (drop s ?x)"
    using py_slice_nat_in [of s ?x e] S(3) E(2) by simp
  have sl3: "py_slice ?y (Some (int s)) (Some (int e)) = take (e - s) (drop s ?y)"
    using py_slice_nat_in [of s ?y e] S(3) E(2) leny by simp
  have d: "np_binop (-) (take (e - s) (drop (Suc s) ?x)) (take (e - s) (drop s ?x))
           = Inr (map2 (-) (take (e - s) (drop (Suc s) ?x)) (take (e - s) (drop s ?x)))"
    using S(3) E(2) by (intro np_binop_same) simp
  have p: "np_binop (*) (map2 (-) (take (e - s) (drop (Suc s) ?x)) (take (e - s) (drop s ?x))) (take (e - s) (drop s ?y))
           = Inr (map2 (*) (map2 (-) (take (e - s) (drop (Suc s) ?x)) (take (e - s) (drop s ?x))) (take (e - s) (drop s ?y)))"
    using S(3) E(2) leny by (intro np_binop_same) simp
  have sum: "sum_list (map2 (*) (map2 (-) (take (e - s) (drop (Suc s) ?x)) (take (e - s) (drop s ?x))) (take (e - s) (drop s ?y)))
             = (\<Sum>i = s..<e. (?x ! (i + 1) - ?x ! i) * ?y ! i)"
  proof (cases "s \<le> e")
    case True
    then show ?thesis
      using window_sum_const [of s "e - s" ?x ?y] E(2) leny by simp
  next
    case False
    then show ?thesis by simp
  qed
  have i1: "py_index ?x (int s) = Inr (?x ! s)"
    using S(3) by (rule py_index_nat)
  have i2: "py_index ?y (int s - 1) = Inr (?y ! (s - 1))"
    using py_index_nat [of "s - 1" ?y] S(2,3) leny by (simp add: of_nat_diff)
  have i3: "py_index ?x (int e) = Inr (?x ! e)"
    using py_index_nat [of e ?x] E(2) by simp
  have i4: "py_index ?y (int e) = Inr (?y ! e)"
    using py_index_nat [of e ?y] E(2) leny by simp
  have "pwc_integral f (Some (a, b)) =
           Inr ((\<Sum>i = s..<e. (?x ! (i + 1) - ?x ! i) * ?y ! i) + (?x ! s - a) * ?y ! (s - 1) + (b - ?x ! e) * ?y ! e)"
    using S(2,3) E(2)
    by (simp add: pwc_integral_def S(1) E(1) sl1 sl2 sl3 d p sum i1 i2 i3 i4)
  then show ?thesis
    using S E leny by simp
qed


theorem pwc_integral_interval_witness:
  "pwc_integral \<lparr>pwc_x = [0, 1, 2, 3], pwc_y = [1, 2, 3]\<rparr> (Some (1 / 2, 5 / 2)) = Inr 4"
proof -
  let ?f = "\<lparr>pwc_x = [0, 1, 2, 3], pwc_y = [1, 2, 3]\<rparr>"
  have v: "pwc_valid ?f"
    by (simp add: pwc_valid_def)
  have s: "Suc 0 = nat (searchsorted_right (pwc_x ?f) (1 / 2))"
    by (simp add: searchsorted_right_def)
  have e: "Suc (Suc 0) = nat (searchsorted_left (pwc_x ?f) (5 / 2) - 1)"
    by (simp add: searchsorted_left_def)
  have "pwc_integral ?f (Some (1 / 2, 5 / 2)) =
           Inr ((\<Sum>i = Suc 0..<Suc (Suc 0). (pwc_x ?f ! (i + 1) - pwc_x ?f ! i) * pwc_y ?f ! i)
                + (pwc_x ?f ! Suc 0 - 1 / 2) * pwc_y ?f ! (Suc 0 - 1)
                + (5 / 2 - pwc_x ?f ! Suc (Suc 0)) * pwc_y ?f ! Suc (Suc 0))"
    using pwc_integral_interval [OF v _ _ _ _ s e] by simp
  then show ?thesis
    by simp
qed

theorem pwc_integral_counterexample:
  "pwc_integral \<lparr>pwc_x = [0, 1, 2, 3], pwc_y = [1, 2, 3]\<rparr> (Some (1 / 2, 5 / 2)) = Inr 4
   \<and> (4 :: real) \<noteq> 7 / 2
   \<and> pwc_integral \<lparr>pwc_x = [0, 1, 2, 3], pwc_y = [1, 2, 3]\<rparr> (Some (3, 3)) = Inl IndexError"
  by code_simp

section \<open>Whole-domain integrals and averages\<close>

lemma py_slice_from_one: "py_slice xs (Some 1) None = drop 1 xs"
  by (cases xs) (simp_all add: py_slice_def slice_bound_def Let_def)

lemma py_slice_to_last: "py_slice xs None (Some (- 1)) = take (length xs - 1) xs"
proof -
  have "nat (max 0 (int (length xs) - 1)) = length xs - 1"
    by linarith
  then show ?thesis
    by (simp add: py_slice_def slice_bound_def Let_def)
qed

lemma py_slice_interior: "py_slice xs (Some 1) (Some (- 1)) = take (length xs - 2) (drop 1 xs)"
proof (cases xs)
  case Nil
  then show ?thesis by (simp add: py_slice_def slice_bound_def Let_def)
next
  case (Cons u us)
  have "nat (int (length us)) - Suc 0 = length us - Suc 0" by simp
  then show ?thesis
    using Cons by (simp add: py_slice_def slice_bound_def Let_def)
qed

lemma py_index_last: "xs \<noteq> [] \<Longrightarrow> py_index xs (- 1) = Inr (last xs)"
  by (cases xs rule: rev_cases) (simp_all add: py_index_def nth_append)

lemma py_index_first: "xs \<noteq> [] \<Longrightarrow> py_index xs 0 = Inr (hd xs)"
  by (cases xs) (simp_all add: py_index_def)

lemma strictly_increasing_ends:
  fixes xs :: "real list"
  assumes "sorted_wrt (<) xs" "2 \<le> length xs"
  shows "hd xs < last xs"
proof -
  have "xs ! 0 < xs ! (length xs - 1)"
    using assms sorted_wrt_nth_less [of "(<)" xs 0 "length xs - 1"] by simp
  moreover have "xs \<noteq> []"
    using assms(2) by auto
  ultimately show ?thesis
    by (simp add: hd_conv_nth last_conv_nth)
qed

lemma sum_list_interior:
  fixes xs :: "real list"
  shows "sum_list (take (length xs - 2) (drop 1 xs)) = (\<Sum>i = 1..<length xs - 1. xs ! i)"
proof -
  let ?L = "take (length xs - 2) (drop 1 xs)"
  have len: "length ?L = length xs - 2" by simp
  have "sum_list ?L = (\<Sum>i = 0..<length xs - 2. ?L ! i)"
    using sum_list_sum_nth [of ?L] len by simp
  also have "\<dots> = (\<Sum>i = 0..<length xs - 2. xs ! (1 + i))"
    by (intro sum.cong) simp_all
  also have "\<dots> = (\<Sum>i = 1..<length xs - 1. xs ! i)"
  proof (cases "2 \<le> length xs")
    case True
    then have "length xs - 2 + 1 = length xs - 1" by linarith
    then show ?thesis
      using sum.shift_bounds_nat_ivl [of "\<lambda>i. xs ! i" 0 1 "length xs - 2"]
      by (simp add: add.commute)
  next
    case False
    then show ?thesis by simp
  qed
  finally show ?thesis .
qed


text \<open>
  Claim C7. For a discrete function with at least three points (and as many multiplicities
  as values), \<open>integral(None)\<close> returns the sum of \<open>y\<close> over the interior points, the
  first and the last entry left out, divided by the sum of \<open>mp\<close> over the same points: a
  mean weighted by multiplicity, which differs from the plain mean of the values.
\<close>

theorem df_integral_whole:
  assumes "3 \<le> length (df_y f)" "length (df_mp f) = length (df_y f)"
  shows "df_integral f NoInterval =
           Inr (np_div (\<Sum>i = 1..<length (df_y f) - 1. df_y f ! i)
                       (\<Sum>i = 1..<length (df_y f) - 1. df_mp f ! i))"
  using assms sum_list_interior [of "df_y f"] sum_list_interior [of "df_mp f"]
  by (simp add: df_integral_def py_slice_interior)

theorem df_integral_whole_witness:
  "df_integral \<lparr>df_x = [0, 1, 2, 3], df_y = [0, 3, 1, 0], df_mp = [1, 3, 1, 1]\<rparr> NoInterval = Inr (Finite 1)
   \<and> (1 :: real) \<noteq> (3 + 1) / 2"
proof -
  let ?f = "\<lparr>df_x = [0, 1, 2, 3], df_y = [0, 3, 1, 0], df_mp = [1, 3, 1, 1]\<rparr>"
  have "df_integral ?f NoInterval =
          Inr (np_div (\<Sum>i = 1..<length (df_y ?f) - 1. df_y ?f ! i)
                      (\<Sum>i = 1..<length (df_y ?f) - 1. df_mp ?f ! i))"
    by (rule df_integral_whole) simp_all
  moreover have "{1..<length (df_y ?f) - 1} = {1, 2 :: nat}"
    by auto
  ultimately show ?thesis
    by (simp add: np_div_def)
qed


text \<open>
  Claim C10. For a discrete function and every interval argument (\<open>None\<close>, a pair, a
  sequence of pairs), \<open>avrg(interval)\<close> returns what \<open>integral(interval)\<close> returns: no
  further division by an interval length or by a number of intervals takes place.
\<close>

theorem df_avrg_eq_integral: "df_avrg f interval = df_integral f interval"
  by (simp add: df_avrg_def)


theorem df_avrg_eq_integral_witness:
  "df_avrg \<lparr>df_x = [0, 1, 2, 3], df_y = [0, 3, 1, 0], df_mp = [1, 3, 1, 1]\<rparr> (Pairs [(1 / 2, 3 / 2), (3 / 2, 5 / 2)])
     = df_integral \<lparr>df_x = [0, 1, 2, 3], df_y = [0, 3, 1, 0], df_mp = [1, 3, 1, 1]\<rparr> (Pairs [(1 / 2, 3 / 2), (3 / 2, 5 / 2)])
   \<and> df_integral \<lparr>df_x = [0, 1, 2, 3], df_y = [0, 3, 1, 0], df_mp = [1, 3, 1, 1]\<rparr> (Pairs [(1 / 2, 3 / 2), (3 / 2, 5 / 2)])
     = Inr (Finite 1)"
proof
  show "df_avrg \<lparr>df_x = [0, 1, 2, 3], df_y = [0, 3, 1, 0], df_mp = [1, 3, 1, 1]\<rparr> (Pairs [(1 / 2, 3 / 2), (3 / 2, 5 / 2)])
     = df_integral \<lparr>df_x = [0, 1, 2, 3], df_y = [0, 3, 1, 0], df_mp = [1, 3, 1, 1]\<rparr> (Pairs [(1 / 2, 3 / 2), (3 / 2, 5 / 2)])"
    by (rule df_avrg_eq_integral)
  show "df_integral \<lparr>df_x = [0, 1, 2, 3], df_y = [0, 3, 1, 0], df_mp = [1, 3, 1, 1]\<rparr> (Pairs [(1 / 2, 3 / 2), (3 / 2, 5 / 2)])
     = Inr (Finite 1)"
    by code_simp
qed

lemma pwc_integral_whole:
  assumes "pwc_valid f"
  shows "pwc_integral f None =
           Inr (sum_list (map2 (*) (map2 (-) (drop 1 (pwc_x f)) (take (length (pwc_x f) - 1) (pwc_x f))) (pwc_y f)))"
  using assms
  by (simp add: pwc_integral_def pwc_valid_def py_slice_from_one py_slice_to_last np_binop_same)

lemma pwl_integral_whole:
  assumes "pwl_valid f"
  shows "pwl_integral f None =
           Inr (Finite (sum_list (map2 (*)
                  (map (\<lambda>u. u * (1 / 2)) (map2 (-) (drop 1 (pwl_x f)) (take (length (pwl_x f) - 1) (pwl_x f))))
                  (map2 (+) (pwl_y1 f) (pwl_y2 f)))))"
  using assms
  by (simp add: pwl_integral_def pwl_valid_def py_slice_from_one py_slice_to_last np_binop_same)


text \<open>
  Claim C3, as amended. For every well-formed piecewise constant and piecewise linear
  function, \<open>integral(None)\<close> equals \<open>avrg(None)\<close> times the length \<open>x[-1] - x[0]\<close> of the
  domain (exactly, in real arithmetic). The discrete function is left out: its \<open>avrg\<close> is
  its \<open>integral\<close>, so the identity fails there unless the domain has length one.
\<close>

theorem integral_eq_avrg_times_length:
  assumes "pwc_valid f" "pwl_valid g"
  shows "(\<exists>v q. pwc_integral f None = Inr v \<and> pwc_avrg f NoInterval = Inr (Finite q)
                 \<and> v = q * (last (pwc_x f) - hd (pwc_x f)))
       \<and> (\<exists>v q. pwl_integral g None = Inr (Finite v) \<and> pwl_avrg g NoInterval = Inr (Finite q)
                 \<and> v = q * (last (pwl_x g) - hd (pwl_x g)))"
proof
  have ne: "pwc_x f \<noteq> []" and pos: "hd (pwc_x f) < last (pwc_x f)"
    using assms(1) strictly_increasing_ends [of "pwc_x f"] by (auto simp: pwc_valid_def)
  show "\<exists>v q. pwc_integral f None = Inr v \<and> pwc_avrg f NoInterval = Inr (Finite q)
                 \<and> v = q * (last (pwc_x f) - hd (pwc_x f))"
    using pos
    by (simp add: pwc_avrg_def pwc_integral_whole [OF assms(1)] py_index_last [OF ne]
        py_index_first [OF ne] np_div_def)
next
  have ne: "pwl_x g \<noteq> []" and pos: "hd (pwl_x g) < last (pwl_x g)"
    using assms(2) strictly_increasing_ends [of "pwl_x g"] by (auto simp: pwl_valid_def)
  show "\<exists>v q. pwl_integral g None = Inr (Finite v) \<and> pwl_avrg g NoInterval = Inr (Finite q)
                 \<and> v = q * (last (pwl_x g) - hd (pwl_x g))"
    using pos
    by (simp add: pwl_avrg_def pwl_integral_whole [OF assms(2)] py_index_last [OF ne]
        py_index_first [OF ne] np_div_def)
qed

theorem integral_eq_avrg_times_length_witness:
  "((\<exists>v q. pwc_integral \<lparr>pwc_x = [0, 1, 2, 3], pwc_y = [1, 2, 3]\<rparr> None = Inr v
            \<and> pwc_avrg \<lparr>pwc_x = [0, 1, 2, 3], pwc_y = [1, 2, 3]\<rparr> NoInterval = Inr (Finite q)
            \<and> v = q * (last (pwc_x \<lparr>pwc_x = [0, 1, 2, 3], pwc_y = [1, 2, 3]\<rparr>)
                       - hd (pwc_x \<lparr>pwc_x = [0, 1, 2, 3], pwc_y = [1, 2, 3]\<rparr>)))
    \<and> (\<exists>v q. pwl_integral \<lparr>pwl_x = [0, 1, 2, 3], pwl_y1 = [1, 2, 3], pwl_y2 = [2, 2, 1]\<rparr> None = Inr (Finite v)
            \<and> pwl_avrg \<lparr>pwl_x = [0, 1, 2, 3], pwl_y1 = [1, 2, 3], pwl_y2 = [2, 2, 1]\<rparr> NoInterval = Inr (Finite q)
            \<and> v = q * (last (pwl_x \<lparr>pwl_x = [0, 1, 2, 3], pwl_y1 = [1, 2, 3], pwl_y2 = [2, 2, 1]\<rparr>)
                       - hd (pwl_x \<lparr>pwl_x = [0, 1, 2, 3], pwl_y1 = [1, 2, 3], pwl_y2 = [2, 2, 1]\<rparr>))))
   \<and> pwc_avrg \<lparr>pwc_x = [0, 1, 2, 3], pwc_y = [1, 2, 3]\<rparr> NoInterval = Inr (Finite 2)
   \<and> pwl_avrg \<lparr>pwl_x = [0, 1, 2, 3], pwl_y1 = [1, 2, 3], pwl_y2 = [2, 2, 1]\<rparr> NoInterval = Inr (Finite (11 / 6))"
proof (intro conjI)
  have v1: "pwc_valid \<lparr>pwc_x = [0, 1, 2, 3], pwc_y = [1, 2, 3]\<rparr>"
    by (simp add: pwc_valid_def)
  have v2: "pwl_valid \<lparr>pwl_x = [0, 1, 2, 3], pwl_y1 = [1, 2, 3], pwl_y2 = [2, 2, 1]\<rparr>"
    by (simp add: pwl_valid_def)
  show "\<exists>v q. pwc_integral \<lparr>pwc_x = [0, 1, 2, 3], pwc_y = [1, 2, 3]\<rparr> None = Inr v
            \<and> pwc_avrg \<lparr>pwc_x = [0, 1, 2, 3], pwc_y = [1, 2, 3]\<rparr> NoInterval = Inr (Finite q)
            \<and> v = q * (last (pwc_x \<lparr>pwc_x = [0, 1, 2, 3], pwc_y = [1, 2, 3]\<rparr>)
                       - hd (pwc_x \<lparr>pwc_x = [0, 1, 2, 3], pwc_y = [1, 2, 3]\<rparr>))"
    using integral_eq_avrg_times_length [OF v1 v2] by (rule conjunct1)
  show "\<exists>v q. pwl_integral \<lparr>pwl_x = [0, 1, 2, 3], pwl_y1 = [1, 2, 3], pwl_y2 = [2, 2, 1]\<rparr> None = Inr (Finite v)
            \<and> pwl_avrg \<lparr>pwl_x = [0, 1, 2, 3], pwl_y1 = [1, 2, 3], pwl_y2 = [2, 2, 1]\<rparr> NoInterval = Inr (Finite q)
            \<and> v = q * (last (pwl_x \<lparr>pwl_x = [0, 1, 2, 3], pwl_y1 = [1, 2, 3], pwl_y2 = [2, 2, 1]\<rparr>)
                       - hd (pwl_x \<lparr>pwl_x = [0, 1, 2, 3], pwl_y1 = [1, 2, 3], pwl_y2 = [2, 2, 1]\<rparr>))"
    using integral_eq_avrg_times_length [OF v1 v2] by (rule conjunct2)
  show "pwc_avrg \<lparr>pwc_x = [0, 1, 2, 3], pwc_y = [1, 2, 3]\<rparr> NoInterval = Inr (Finite 2)"
    by code_simp
  show "pwl_avrg \<lparr>pwl_x = [0, 1, 2, 3], pwl_y1 = [1, 2, 3], pwl_y2 = [2, 2, 1]\<rparr> NoInterval = Inr (Finite (11 / 6))"
    by code_simp
qed

theorem discrete_integral_avrg_counterexample:
  "df_integral \<lparr>df_x = [0, 1, 2], df_y = [0, 1, 0], df_mp = [1, 1, 1]\<rparr> NoInterval = Inr (Finite 1)
   \<and> df_avrg \<lparr>df_x = [0, 1, 2], df_y = [0, 1, 0], df_mp = [1, 1, 1]\<rparr> NoInterval = Inr (Finite 1)
   \<and> (1 :: real) \<noteq> 1 * (2 - 0)"
  by code_simp


section \<open>Intervals that leave the domain\<close>

text \<open>
  The \<open>assert\<close> of the piecewise constant and piecewise linear \<open>integral\<close> compares
  \<open>end_ind\<close>, which is the insertion index minus one, with \<open>len(x)\<close>: that comparison
  holds for every input, so the check never fires for a right bound beyond the domain.
\<close>

lemma end_ind_check_vacuous: "searchsorted_left xs b - 1 < int (length xs)"
  using length_takeWhile_le [of "\<lambda>e. e < b" xs] by (simp add: searchsorted_left_def)


text \<open>
  Claim C2, evaluated on the code. A right bound beyond \<open>x[-1]\<close> passes the \<open>assert\<close>
  of the piecewise constant and piecewise linear \<open>integral\<close>, and the call fails with
  \<open>IndexError\<close> when it reads \<open>y[end_ind]\<close>; the discrete \<open>integral\<close>, whose \<open>end_ind\<close> is
  the insertion index itself, fails the \<open>assert\<close> as the claim says, and so does a left
  bound below \<open>x[0]\<close> in every class.
\<close>

theorem integral_right_bound_outside_domain:
  "pwc_integral \<lparr>pwc_x = [0, 1, 2, 3], pwc_y = [1, 2, 3]\<rparr> (Some (1 / 2, 7 / 2)) = Inl IndexError
   \<and> pwl_integral \<lparr>pwl_x = [0, 1, 2, 3], pwl_y1 = [1, 2, 3], pwl_y2 = [2, 2, 1]\<rparr> (Some (1 / 2, 7 / 2)) = Inl IndexError
   \<and> df_integral \<lparr>df_x = [0, 1, 2, 3], df_y = [0, 3, 1, 0], df_mp = [1, 3, 1, 1]\<rparr> (Pair (1 / 2) (7 / 2)) = Inl AssertionError
   \<and> pwc_integral \<lparr>pwc_x = [0, 1, 2, 3], pwc_y = [1, 2, 3]\<rparr> (Some (- 1, 2)) = Inl AssertionError"
  by code_simp

section \<open>The average over several intervals\<close>

lemma fadd_assoc: "fadd (fadd a b) c = fadd a (fadd b c)"
  by (cases a; cases b; cases c) simp_all

lemma fadd_zero_left [simp]: "fadd (Finite 0) a = a"
  by (cases a) simp_all

lemma fadd_zero_right [simp]: "fadd a (Finite 0) = a"
  by (cases a) simp_all

lemma pwc_avrg_loop_eq:
  "pwc_avrg_loop f a l ivals =
     bindE (mapE (\<lambda>ival. pwc_integral f (Some ival)) ivals)
       (\<lambda>vs. Inr (a + sum_list vs, l + total_length ivals))"
proof (induction ivals arbitrary: a l)
  case Nil
  then show ?case by (simp add: total_length_def)
next
  case (Cons ival ivals)
  show ?case
  proof (cases "pwc_integral f (Some ival)")
    case (Inl err)
    then show ?thesis by simp
  next
    case (Inr v)
    then show ?thesis
      using Cons.IH [of "a + v" "l + (snd ival - fst ival)"]
      by (cases "mapE (\<lambda>ival. pwc_integral f (Some ival)) ivals")
         (simp_all add: total_length_def add.assoc)
  qed
qed

lemma pwl_avrg_loop_eq:
  "pwl_avrg_loop f a l ivals =
     bindE (mapE (\<lambda>ival. pwl_integral f (Some ival)) ivals)
       (\<lambda>vs. Inr (fadd a (fsum vs), l + total_length ivals))"
proof (induction ivals arbitrary: a l)
  case Nil
  then show ?case by (simp add: total_length_def)
next
  case (Cons ival ivals)
  show ?case
  proof (cases "pwl_integral f (Some ival)")
    case (Inl err)
    then show ?thesis by simp
  next
    case (Inr v)
    then show ?thesis
      using Cons.IH [of "fadd a v" "l + (snd ival - fst ival)"]
      by (cases "mapE (\<lambda>ival. pwl_integral f (Some ival)) ivals")
         (simp_all add: total_length_def add.assoc fadd_assoc)
  qed
qed


text \<open>
  Claim C6. For a piecewise constant or piecewise linear function and a non-empty
  sequence of intervals, \<open>avrg\<close> returns the sum of the integrals over the intervals
  divided, once, by the sum of the lengths of the intervals; an interval whose integral
  raises makes \<open>avrg\<close> raise the same exception. It is one weighted average, not the
  average of the averages of the intervals.
\<close>

theorem avrg_several_intervals:
  assumes "ivals \<noteq> []"
  shows "pwc_avrg f (Pairs ivals) =
           bindE (mapE (\<lambda>ival. pwc_integral f (Some ival)) ivals)
             (\<lambda>vs. Inr (np_div (sum_list vs) (total_length ivals)))
       \<and> pwl_avrg g (Pairs ivals) =
           bindE (mapE (\<lambda>ival. pwl_integral g (Some ival)) ivals)
             (\<lambda>vs. Inr (fdiv (fsum vs) (total_length ivals)))"
proof
  show "pwc_avrg f (Pairs ivals) =
           bindE (mapE (\<lambda>ival. pwc_integral f (Some ival)) ivals)
             (\<lambda>vs. Inr (np_div (sum_list vs) (total_length ivals)))"
    using assms
    by (cases "mapE (\<lambda>ival. pwc_integral f (Some ival)) ivals")
       (simp_all add: pwc_avrg_def pwc_avrg_loop_eq)
  show "pwl_avrg g (Pairs ivals) =
           bindE (mapE (\<lambda>ival. pwl_integral g (Some ival)) ivals)
             (\<lambda>vs. Inr (fdiv (fsum vs) (total_length ivals)))"
    using assms
    by (cases "mapE (\<lambda>ival. pwl_integral g (Some ival)) ivals")
       (simp_all add: pwl_avrg_def pwl_avrg_loop_eq)
qed

theorem avrg_several_intervals_witness:
  "pwc_avrg \<lparr>pwc_x = [0, 1, 2, 3], pwc_y = [1, 2, 3]\<rparr> (Pairs [(1 / 2, 3 / 2), (1 / 2, 5 / 2)])
     = Inr (Finite (11 / 6))
   \<and> pwc_avrg \<lparr>pwc_x = [0, 1, 2, 3], pwc_y = [1, 2, 3]\<rparr> (Pair (1 / 2) (3 / 2)) = Inr (Finite (3 / 2))
   \<and> pwc_avrg \<lparr>pwc_x = [0, 1, 2, 3], pwc_y = [1, 2, 3]\<rparr> (Pair (1 / 2) (5 / 2)) = Inr (Finite 2)
   \<and> (11 / 6 :: real) \<noteq> (3 / 2 + 2) / 2
   \<and> pwl_avrg \<lparr>pwl_x = [0, 1, 2, 3], pwl_y1 = [1, 2, 3], pwl_y2 = [2, 2, 1]\<rparr> (Pairs [(1 / 2, 3 / 2), (1 / 2, 5 / 2)])
     = Inr (Finite 2)"
proof (intro conjI)
  let ?iv = "[(1 / 2, 3 / 2), (1 / 2, 5 / 2 :: real)]"
  let ?f = "\<lparr>pwc_x = [0, 1, 2, 3], pwc_y = [1, 2, 3]\<rparr>"
  let ?g = "\<lparr>pwl_x = [0, 1, 2, 3], pwl_y1 = [1, 2, 3], pwl_y2 = [2, 2, 1]\<rparr>"
  have ne: "?iv \<noteq> []" by simp
  note inst = avrg_several_intervals [OF ne, of ?f ?g]
  have r1: "bindE (mapE (\<lambda>ival. pwc_integral ?f (Some ival)) ?iv)
             (\<lambda>vs. Inr (np_div (sum_list vs) (total_length ?iv))) = Inr (Finite (11 / 6))"
    by code_simp
  have r2: "bindE (mapE (\<lambda>ival. pwl_integral ?g (Some ival)) ?iv)
             (\<lambda>vs. Inr (fdiv (fsum vs) (total_length ?iv))) = Inr (Finite 2)"
    by code_simp
  show "pwc_avrg ?f (Pairs ?iv) = Inr (Finite (11 / 6))"
    using inst r1 by simp
  show "pwl_avrg ?g (Pairs ?iv) = Inr (Finite 2)"
    using inst r2 by simp
  show "pwc_avrg ?f (Pair (1 / 2) (3 / 2)) = Inr (Finite (3 / 2))"
    by code_simp
  show "pwc_avrg ?f (Pair (1 / 2) (5 / 2)) = Inr (Finite 2)"
    by code_simp
  show "(11 / 6 :: real) \<noteq> (3 / 2 + 2) / 2"
    by simp
qed

section \<open>The integral of a piecewise linear function over an interval\<close>

lemma intermediate_value_finite:
  "x0 \<noteq> x1 \<Longrightarrow> intermediate_value x0 x1 y0 y1 t = Finite (interpolate x0 x1 y0 y1 t)"
  by (simp add: intermediate_value_def interpolate_def np_div_def)

lemma window_sum_lin:
  fixes x y1 y2 :: "real list"
  assumes "s + k < length x" "s + k \<le> length y1" "s + k \<le> length y2"
  shows "sum_list (map2 (*) (map (\<lambda>u. u * (1 / 2)) (map2 (-) (take k (drop (Suc s) x)) (take k (drop s x))))
                            (map2 (+) (take k (drop s y1)) (take k (drop s y2))))
         = (\<Sum>i = s..<s + k. (x ! (i + 1) - x ! i) * (1 / 2) * (y1 ! i + y2 ! i))"
proof -
  let ?L = "map2 (*) (map (\<lambda>u. u * (1 / 2)) (map2 (-) (take k (drop (Suc s) x)) (take k (drop s x))))
                     (map2 (+) (take k (drop s y1)) (take k (drop s y2)))"
  let ?g = "\<lambda>i. (x ! (i + 1) - x ! i) * (1 / 2) * (y1 ! i + y2 ! i)"
  have len: "length ?L = k"
    using assms by simp
  have nth: "?L ! i = ?g (i + s)" if "i < k" for i
    using that assms by (simp add: add.commute)
  have "sum_list ?L = (\<Sum>i = 0..<length ?L. ?L ! i)"
    by (rule sum_list_sum_nth)
  also have "\<dots> = (\<Sum>i = 0..<k. ?L ! i)"
    by (simp only: len)
  also have "\<dots> = (\<Sum>i = 0..<k. ?g (i + s))"
    by (rule sum.cong) (simp_all only: nth atLeastLessThan_iff)
  also have "\<dots> = (\<Sum>i = 0 + s..<k + s. ?g i)"
    by (rule sum.shift_bounds_nat_ivl [symmetric])
  also have "\<dots> = (\<Sum>i = s..<s + k. ?g i)"
    by (simp only: add_0 add.commute [of k s])
  finally show ?thesis .
qed


text \<open>
  Claim C4, as amended. For a piecewise linear function with strictly increasing
  breakpoints and bounds \<open>x[0] \<le> a < x[N]\<close> and \<open>x[0] < b \<le> x[N]\<close>, \<open>integral([a,b])\<close>
  sums the intervals \<open>[start_ind, end_ind)\<close> by the trapezoid formula
  \<open>(x[i+1]-x[i])*0.5*(y1[i]+y2[i])\<close>; at the left edge it adds the width
  \<open>x[start_ind]-a\<close> times the mean of the right endpoint value of the interval that
  contains \<open>a\<close> and the value interpolated at \<open>a\<close>; at the right edge it adds the width
  \<open>b-x[end_ind]\<close> times the mean of the left endpoint value of the interval that contains
  \<open>b\<close> and the value interpolated at \<open>b\<close>.
\<close>

theorem pwl_integral_interval:
  assumes v: "pwl_valid f"
    and a: "hd (pwl_x f) \<le> a" "a < last (pwl_x f)"
    and b: "hd (pwl_x f) < b" "b \<le> last (pwl_x f)"
    and s: "s = nat (searchsorted_right (pwl_x f) a)"
    and e: "e = nat (searchsorted_left (pwl_x f) b - 1)"
  shows "pwl_integral f (Some (a, b)) =
           Inr (Finite ((\<Sum>i = s..<e. (pwl_x f ! (i + 1) - pwl_x f ! i) * (1 / 2) * (pwl_y1 f ! i + pwl_y2 f ! i))
                + (pwl_x f ! s - a) * (1 / 2)
                  * (pwl_y2 f ! (s - 1)
                     + interpolate (pwl_x f ! (s - 1)) (pwl_x f ! s) (pwl_y1 f ! (s - 1)) (pwl_y2 f ! (s - 1)) a)
                + (b - pwl_x f ! e) * (1 / 2)
                  * (pwl_y1 f ! e
                     + interpolate (pwl_x f ! e) (pwl_x f ! (e + 1)) (pwl_y1 f ! e) (pwl_y2 f ! e) b)))
         \<and> 0 < s \<and> s < length (pwl_x f) \<and> e < length (pwl_y1 f)
         \<and> pwl_x f ! (s - 1) \<le> a \<and> a < pwl_x f ! s
         \<and> pwl_x f ! e < b \<and> b \<le> pwl_x f ! (e + 1)"
proof -
  let ?x = "pwl_x f" and ?y1 = "pwl_y1 f" and ?y2 = "pwl_y2 f"
  have ne: "?x \<noteq> []" and len1: "length ?y1 = length ?x - 1" and len2: "length ?y2 = length ?x - 1"
    using v by (auto simp: pwl_valid_def)
  note S = searchsorted_right_bounds [OF ne a s]
  note E = searchsorted_left_bounds [OF ne b e]
  have sl1: "py_slice ?x (Some (int s + 1)) (Some (int e + 1)) = take (e - s) (drop (Suc s) ?x)"
    using py_slice_nat_in [of "Suc s" ?x "Suc e"] S(3) E(2) by (simp add: add.commute)
  have sl2: "py_slice ?x (Some (int s)) (Some (int e)) = take (e - s) (drop s ?x)"
    using py_slice_nat_in [of s ?x e] S(3) E(2) by simp
  have sl3: "py_slice ?y1 (Some (int s)) (Some (int e)) = take (e - s) (drop s ?y1)"
    using py_slice_nat_in [of s ?y1 e] S(3) E(2) len1 by simp
  have sl4: "py_slice ?y2 (Some (int s)) (Some (int e)) = take (e - s) (drop s ?y2)"
    using py_slice_nat_in [of s ?y2 e] S(3) E(2) len2 by simp
  have d: "np_binop (-) (take (e - s) (drop (Suc s) ?x)) (take (e - s) (drop s ?x))
           = Inr (map2 (-) (take (e - s) (drop (Suc s) ?x)) (take (e - s) (drop s ?x)))"
    using S(3) E(2) by (intro np_binop_same) simp
  have q: "np_binop (+) (take (e - s) (drop s ?y1)) (take (e - s) (drop s ?y2))
           = Inr (map2 (+) (take (e - s) (drop s ?y1)) (take (e - s) (drop s ?y2)))"
    using len1 len2 by (intro np_binop_same) simp
  have p: "np_binop (*) (map (\<lambda>u. u * (1 / 2)) (map2 (-) (take (e - s) (drop (Suc s) ?x)) (take (e - s) (drop s ?x))))
                        (map2 (+) (take (e - s) (drop s ?y1)) (take (e - s) (drop s ?y2)))
           = Inr (map2 (*) (map (\<lambda>u. u * (1 / 2)) (map2 (-) (take (e - s) (drop (Suc s) ?x)) (take (e - s) (drop s ?x))))
                           (map2 (+) (take (e - s) (drop s ?y1)) (take (e - s) (drop s ?y2))))"
    using S(3) E(2) len1 len2 by (intro np_binop_same) simp
  have sum: "sum_list (map2 (*) (map (\<lambda>u. u * (1 / 2)) (map2 (-) (take (e - s) (drop (Suc s) ?x)) (take (e - s) (drop s ?x))))
                                (map2 (+) (take (e - s) (drop s ?y1)) (take (e - s) (drop s ?y2))))
             = (\<Sum>i = s..<e. (?x ! (i + 1) - ?x ! i) * (1 / 2) * (?y1 ! i + ?y2 ! i))"
  proof (cases "s \<le> e")
    case True
    then show ?thesis
      using window_sum_lin [of s "e - s" ?x ?y1 ?y2] E(2) len1 len2 by simp
  next
    case False
    then show ?thesis by simp
  qed
  have i1: "py_index ?x (int s) = Inr (?x ! s)"
    using S(3) by (rule py_index_nat)
  have s1: "int s - 1 = int (s - 1)"
    using S(2) by linarith
  have i2: "py_index ?y2 (int s - 1) = Inr (?y2 ! (s - 1))"
    unfolding s1 using S(2,3) len2 by (intro py_index_nat) simp
  have i3: "py_index ?x (int s - 1) = Inr (?x ! (s - 1))"
    unfolding s1 using S(2,3) by (intro py_index_nat) simp
  have i4: "py_index ?y1 (int s - 1) = Inr (?y1 ! (s - 1))"
    unfolding s1 using S(2,3) len1 by (intro py_index_nat) simp
  have i5: "py_index ?x (int e) = Inr (?x ! e)"
    using E(2) by (intro py_index_nat) simp
  have i6: "py_index ?y1 (int e) = Inr (?y1 ! e)"
    using E(2) len1 by (intro py_index_nat) simp
  have i7: "py_index ?x (int e + 1) = Inr (?x ! (e + 1))"
    using py_index_nat [of "e + 1" ?x] E(2) by (simp add: add.commute)
  have i8: "py_index ?y2 (int e) = Inr (?y2 ! e)"
    using E(2) len2 by (intro py_index_nat) simp
  have iv1: "intermediate_value (?x ! (s - 1)) (?x ! s) (?y1 ! (s - 1)) (?y2 ! (s - 1)) a
             = Finite (interpolate (?x ! (s - 1)) (?x ! s) (?y1 ! (s - 1)) (?y2 ! (s - 1)) a)"
    using S(4,5) by (intro intermediate_value_finite) simp
  have iv2: "intermediate_value (?x ! e) (?x ! (e + 1)) (?y1 ! e) (?y2 ! e) b
             = Finite (interpolate (?x ! e) (?x ! (e + 1)) (?y1 ! e) (?y2 ! e) b)"
    using E(3,4) by (intro intermediate_value_finite) simp
  have chk: "0 < int s \<and> int e < int (length ?x)"
    using S(2) E(2) by simp
  have "pwl_integral f (Some (a, b)) =
           Inr (Finite ((\<Sum>i = s..<e. (?x ! (i + 1) - ?x ! i) * (1 / 2) * (?y1 ! i + ?y2 ! i))
                + (?x ! s - a) * (1 / 2)
                  * (?y2 ! (s - 1) + interpolate (?x ! (s - 1)) (?x ! s) (?y1 ! (s - 1)) (?y2 ! (s - 1)) a)
                + (b - ?x ! e) * (1 / 2)
                  * (?y1 ! e + interpolate (?x ! e) (?x ! (e + 1)) (?y1 ! e) (?y2 ! e) b)))"
    unfolding pwl_integral_def
    apply (simp only: option.case prod.case Let_def S(1) E(1) chk not_True_eq_False if_False simp_thms)
    apply (simp only: sl1 sl2 sl3 sl4 d q p sum i1 i2 i3 i4 i5 i6 i7 i8 iv1 iv2 bindE_Inr fadd.simps fmul.simps)
    done
  then show ?thesis
    using S E len1 by simp
qed

theorem pwl_integral_interval_witness:
  "pwl_integral \<lparr>pwl_x = [0, 1, 2, 3], pwl_y1 = [1, 2, 3], pwl_y2 = [2, 2, 1]\<rparr> (Some (1 / 2, 5 / 2))
     = Inr (Finite (33 / 8))"
proof -
  let ?f = "\<lparr>pwl_x = [0, 1, 2, 3], pwl_y1 = [1, 2, 3], pwl_y2 = [2, 2, 1]\<rparr>"
  have v: "pwl_valid ?f"
    by (simp add: pwl_valid_def)
  have s: "Suc 0 = nat (searchsorted_right (pwl_x ?f) (1 / 2))"
    by (simp add: searchsorted_right_def)
  have e: "Suc (Suc 0) = nat (searchsorted_left (pwl_x ?f) (5 / 2) - 1)"
    by (simp add: searchsorted_left_def)
  have "pwl_integral ?f (Some (1 / 2, 5 / 2)) =
           Inr (Finite ((\<Sum>i = Suc 0..<Suc (Suc 0). (pwl_x ?f ! (i + 1) - pwl_x ?f ! i) * (1 / 2) * (pwl_y1 ?f ! i + pwl_y2 ?f ! i))
                + (pwl_x ?f ! Suc 0 - 1 / 2) * (1 / 2)
                  * (pwl_y2 ?f ! (Suc 0 - 1)
                     + interpolate (pwl_x ?f ! (Suc 0 - 1)) (pwl_x ?f ! Suc 0) (pwl_y1 ?f ! (Suc 0 - 1)) (pwl_y2 ?f ! (Suc 0 - 1)) (1 / 2))
                + (5 / 2 - pwl_x ?f ! Suc (Suc 0)) * (1 / 2)
                  * (pwl_y1 ?f ! Suc (Suc 0)
                     + interpolate (pwl_x ?f ! Suc (Suc 0)) (pwl_x ?f ! (Suc (Suc 0) + 1)) (pwl_y1 ?f ! Suc (Suc 0)) (pwl_y2 ?f ! Suc (Suc 0)) (5 / 2))))"
    using pwl_integral_interval [OF v _ _ _ _ s e] by simp
  then show ?thesis
    by (simp add: interpolate_def)
qed

theorem pwl_integral_counterexample:
  "sorted_wrt (<) [0, 1, 2, 3 :: real] \<and> (0 :: real) \<le> 3 \<and> (3 :: real) \<le> 3
   \<and> pwl_integral \<lparr>pwl_x = [0, 1, 2, 3], pwl_y1 = [1, 2, 3], pwl_y2 = [2, 2, 1]\<rparr> (Some (3, 3)) = Inl IndexError"
  by code_simp

section \<open>The smoothing window of a discrete function\<close>

declare right_loop.simps [simp del] left_loop.simps [simp del]

lemma mapE_all_Inr:
  assumes "\<And>u. u \<in> set us \<Longrightarrow> g u = Inr (h u)"
  shows "mapE g us = Inr (map h us)"
  using assms by (induction us) simp_all

lemma right_loop_eq:
  assumes len: "length (df_mp f) = length (df_y f)" and j: "j \<le> length (df_y f)"
  shows "right_loop f E (int j) y0 m0 =
           (case expand_side E m0 (drop j (zip (df_y f) (df_mp f))) of (v, acc) \<Rightarrow> Inr (fadd y0 v, acc))"
  using j
proof (induction "length (df_y f) - j" arbitrary: j y0 m0)
  case 0
  then have "j = length (df_y f)" by simp
  then show ?case
    by (subst right_loop.simps) (simp add: len)
next
  case (Suc d)
  then have jl: "j < length (df_y f)" by simp
  have dr: "drop j (zip (df_y f) (df_mp f)) = (df_y f ! j, df_mp f ! j) # drop (Suc j) (zip (df_y f) (df_mp f))"
    using jl len by (simp add: Cons_nth_drop_Suc [symmetric])
  have im: "py_index (df_mp f) (int j) = Inr (df_mp f ! j)"
    using jl len by (intro py_index_nat) simp
  have iy: "py_index (df_y f) (int j) = Inr (df_y f ! j)"
    using jl by (intro py_index_nat) simp
  have IH: "right_loop f E (int (Suc j)) y1 m1 =
           (case expand_side E m1 (drop (Suc j) (zip (df_y f) (df_mp f))) of (v, acc) \<Rightarrow> Inr (fadd y1 v, acc))"
    for y1 m1
    using Suc.hyps(1) [of "Suc j" y1 m1] Suc.hyps(2) jl by simp
  have step: "int j + 1 = int (Suc j)" by simp
  show ?case
    apply (subst right_loop.simps)
    apply (simp only: im iy dr step IH)
    using jl apply (simp add: fadd_assoc split: prod.splits)
    done
qed

lemma left_loop_eq:
  assumes len: "length (df_mp f) = length (df_y f)" and j: "j \<le> length (df_y f)"
  shows "left_loop f E (int j - 1) y0 m0 =
           (case expand_side E m0 (rev (take j (zip (df_y f) (df_mp f)))) of (v, acc) \<Rightarrow> Inr (fadd y0 v, acc))"
  using j
proof (induction j arbitrary: y0 m0)
  case 0
  show ?case
    by (subst left_loop.simps) simp
next
  case (Suc j)
  then have jl: "j < length (df_y f)" by simp
  have tk: "rev (take (Suc j) (zip (df_y f) (df_mp f))) = (df_y f ! j, df_mp f ! j) # rev (take j (zip (df_y f) (df_mp f)))"
    using jl len by (simp add: take_Suc_conv_app_nth)
  have im: "py_index (df_mp f) (int j) = Inr (df_mp f ! j)"
    using jl len by (intro py_index_nat) simp
  have iy: "py_index (df_y f) (int j) = Inr (df_y f ! j)"
    using jl by (intro py_index_nat) simp
  have IH: "left_loop f E (int j - 1) y1 m1 =
           (case expand_side E m1 (rev (take j (zip (df_y f) (df_mp f)))) of (v, acc) \<Rightarrow> Inr (fadd y1 v, acc))"
    for y1 m1
    using Suc.IH [of y1 m1] jl by simp
  have step: "int (Suc j) - 1 = int j" by simp
  show ?case
    apply (simp only: step)
    apply (subst left_loop.simps)
    apply (simp only: im iy tk IH)
    apply (simp add: fadd_assoc split: prod.splits)
    done
qed

lemma plot_point_eq:
  assumes len: "length (df_mp f) = length (df_y f)" and i: "i < length (df_y f)"
  shows "plot_point f E (int i) = Inr (smoothed_value f E i)"
proof -
  have im: "py_index (df_mp f) (int i) = Inr (df_mp f ! i)"
    using i len by (intro py_index_nat) simp
  have iy: "py_index (df_y f) (int i) = Inr (df_y f ! i)"
    using i by (intro py_index_nat) simp
  have r: "right_loop f E (int i + 1) y0 m0 =
           (case expand_side E m0 (drop (i + 1) (zip (df_y f) (df_mp f))) of (v, acc) \<Rightarrow> Inr (fadd y0 v, acc))"
    for y0 m0
    using right_loop_eq [OF len, of "i + 1" E y0 m0] i by (simp add: add.commute)
  have l: "left_loop f E (int i - 1) y0 m0 =
           (case expand_side E m0 (rev (take i (zip (df_y f) (df_mp f)))) of (v, acc) \<Rightarrow> Inr (fadd y0 v, acc))"
    for y0 m0
    using left_loop_eq [OF len, of i E y0 m0] i by simp
  have arith: "al + ar - m = m + (ar - m) + (al - m)" for al ar m :: real
    by simp
  show ?thesis
    unfolding plot_point_def smoothed_value_def
    by (simp add: im iy r l arith split: prod.splits)
qed



text \<open>
  Claim C5, as amended. For a discrete function (as many multiplicities as values, at
  least one point) and a window size \<open>k > 0\<close>, the smoothing of \<open>get_plottable_data\<close>
  uses the target multiplicity \<open>expected_mp = (k+1) * int(mp[0])\<close>, with \<open>mp[0]\<close>
  truncated to an integer. At each index \<open>i\<close>: if \<open>mp[i] >= expected_mp\<close> the output is
  \<open>y[i]/mp[i]\<close>; otherwise the window grows to the right and to the left independently,
  adding neighbours in full while the side's accumulated multiplicity stays below
  \<open>expected_mp\<close>, adding the fraction \<open>y[j]*(expected_mp - acc)/mp[j]\<close> of the neighbour
  that reaches it, and ending a side without an error at the end of the array; the output
  is the accumulated value over the accumulated multiplicity, the point's own
  multiplicity counted once.
\<close>

theorem get_plottable_data_smoothing:
  assumes k: "k > 0" and len: "length (df_mp f) = length (df_y f)" and ne: "df_y f \<noteq> []"
  shows "get_plottable_data f k =
           Inr (df_x f,
                map (smoothed_value f (real_of_int ((k + 1) * py_int (df_mp f ! 0))))
                    [0..<length (df_y f)])"
proof -
  let ?E = "real_of_int ((k + 1) * py_int (df_mp f ! 0))"
  have m0: "py_index (df_mp f) 0 = Inr (df_mp f ! 0)"
    using py_index_nat [of 0 "df_mp f"] len ne by simp
  have "mapE (plot_point f ?E) (map int [0..<length (df_y f)])
        = Inr (map (\<lambda>u. smoothed_value f ?E (nat u)) (map int [0..<length (df_y f)]))"
  proof (rule mapE_all_Inr)
    fix u
    assume "u \<in> set (map int [0..<length (df_y f)])"
    then obtain i where "u = int i" "i < length (df_y f)"
      by auto
    then show "plot_point f ?E u = Inr (smoothed_value f ?E (nat u))"
      using plot_point_eq [OF len, of i ?E] by simp
  qed
  then have "mapE (plot_point f ?E) (map int [0..<length (df_y f)])
        = Inr (map (smoothed_value f ?E) [0..<length (df_y f)])"
    by (simp add: comp_def)
  then show ?thesis
    using k by (simp add: get_plottable_data_def m0 Let_def)
qed

theorem get_plottable_data_smoothing_witness:
  "get_plottable_data \<lparr>df_x = [0, 1, 2, 3, 4], df_y = [0, 1, 1, 1, 0], df_mp = [1, 1, 1, 1, 1]\<rparr> 1
     = Inr ([0, 1, 2, 3, 4], [Finite (1 / 2), Finite (2 / 3), Finite 1, Finite (2 / 3), Finite (1 / 2)])"
proof -
  let ?f = "\<lparr>df_x = [0, 1, 2, 3, 4], df_y = [0, 1, 1, 1, 0], df_mp = [1, 1, 1, 1, 1]\<rparr>"
  have "get_plottable_data ?f 1 =
           Inr (df_x ?f,
                map (smoothed_value ?f (real_of_int ((1 + 1) * py_int (df_mp ?f ! 0))))
                    [0..<length (df_y ?f)])"
    by (rule get_plottable_data_smoothing) simp_all
  moreover have "map (smoothed_value ?f (real_of_int ((1 + 1) * py_int (df_mp ?f ! 0))))
                    [0..<length (df_y ?f)]
                 = [Finite (1 / 2), Finite (2 / 3), Finite 1, Finite (2 / 3), Finite (1 / 2)]"
    by code_simp
  ultimately show ?thesis
    by simp
qed

theorem get_plottable_data_counterexample:
  "get_plottable_data \<lparr>df_x = [0, 1, 2], df_y = [0, 3, 0], df_mp = [3 / 2, 3 / 2, 3 / 2]\<rparr> 1
     = Inr ([0, 1, 2], [Finite (1 / 2), Finite (6 / 5), Finite (1 / 2)])
   \<and> map (smoothed_value \<lparr>df_x = [0, 1, 2], df_y = [0, 3, 0], df_mp = [3 / 2, 3 / 2, 3 / 2]\<rparr> ((1 + 1) * (3 / 2))) [0..<3]
     = [Finite 1, Finite (2 / 3), Finite 1]"
  by code_simp

section \<open>Averaging profiles and copying objects\<close>

lemma copy_eq:
  "copy self h =
     (length (objects h),
      h\<lparr>arrays := arrays h @ profile_arrays (value_of h self),
        objects := objects h @ [located (value_of h self) (length (arrays h))]\<rparr>)"
  by (cases "objects h ! self")
     (simp_all add: copy_def value_of_def PieceWiseConstFunc_init_def PieceWiseLinFunc_init_def
        DiscreteFunction_init_def np_array_def new_object_def)

lemma attr_y_value: "bindE (attr_y (objects h ! f)) (\<lambda>a. k (arrays h ! a)) = bindE (profile_y (value_of h f)) k"
  by (cases "objects h ! f") (simp_all add: value_of_def)

lemma attr_y1_value: "bindE (attr_y1 (objects h ! f)) (\<lambda>a. k (arrays h ! a)) = bindE (profile_y1 (value_of h f)) k"
  by (cases "objects h ! f") (simp_all add: value_of_def)

lemma attr_y2_value: "bindE (attr_y2 (objects h ! f)) (\<lambda>a. k (arrays h ! a)) = bindE (profile_y2 (value_of h f)) k"
  by (cases "objects h ! f") (simp_all add: value_of_def)

lemma attr_mp_value: "bindE (attr_mp (objects h ! f)) (\<lambda>a. k (arrays h ! a)) = bindE (profile_mp (value_of h f)) k"
  by (cases "objects h ! f") (simp_all add: value_of_def)

lemma attr_x_value: "arrays h ! attr_x (objects h ! f) = profile_x (value_of h f)"
  by (cases "objects h ! f") (simp_all add: value_of_def)

lemma add_eq_merge:
  "add bk self f h = bindE (merge bk (value_of h self) (value_of h f)) (\<lambda>v. Inr (store v self h))"
proof (cases "objects h ! self")
  case (PWC x y)
  have "add bk self f h =
          bindE (same_interval (arrays h ! x) (profile_x (value_of h f))) (\<lambda>_.
          bindE (profile_y (value_of h f)) (\<lambda>qy.
          bindE (add_piece_wise_const_impl bk (arrays h ! x) (arrays h ! y) (profile_x (value_of h f)) qy) (\<lambda>(nx, ny).
            Inr (store (ConstP \<lparr>pwc_x = nx, pwc_y = ny\<rparr>) self h))))"
    unfolding add_def Let_def PWC object.case attr_x_value
    by (subst attr_y_value [symmetric])
       (simp add: store_def np_array_def split_def)
  then show ?thesis
    using PWC
    by (cases "same_interval (arrays h ! x) (profile_x (value_of h f))"; cases "profile_y (value_of h f)")
       (auto simp: value_of_def bindE_def split: sum.splits prod.splits)
next
  case (PWL x y1 y2)
  have "add bk self f h =
          bindE (same_interval (arrays h ! x) (profile_x (value_of h f))) (\<lambda>_.
          bindE (profile_y1 (value_of h f)) (\<lambda>qy1.
          bindE (profile_y2 (value_of h f)) (\<lambda>qy2.
          bindE (add_piece_wise_lin_impl bk (arrays h ! x) (arrays h ! y1) (arrays h ! y2) (profile_x (value_of h f)) qy1 qy2) (\<lambda>(nx, ny1, ny2).
            Inr (store (LinP \<lparr>pwl_x = nx, pwl_y1 = ny1, pwl_y2 = ny2\<rparr>) self h)))))"
    unfolding add_def Let_def PWL object.case attr_x_value
    apply (subst attr_y1_value [symmetric])
    apply (subst attr_y2_value [symmetric])
    apply (simp add: store_def np_array_def split_def)
    done
  then show ?thesis
    using PWL
    by (cases "same_interval (arrays h ! x) (profile_x (value_of h f))"; cases "profile_y1 (value_of h f)";
        cases "profile_y2 (value_of h f)")
       (auto simp: value_of_def bindE_def split: sum.splits prod.splits)
next
  case (DF x y mp)
  have "add bk self f h =
          bindE (same_interval (arrays h ! x) (profile_x (value_of h f))) (\<lambda>_.
          bindE (profile_y (value_of h f)) (\<lambda>qy.
          bindE (profile_mp (value_of h f)) (\<lambda>qmp.
          bindE (add_discrete_function_impl bk (arrays h ! x) (arrays h ! y) (arrays h ! mp) (profile_x (value_of h f)) qy qmp) (\<lambda>(nx, ny, nmp).
            Inr (store (DiscP \<lparr>df_x = nx, df_y = ny, df_mp = nmp\<rparr>) self h)))))"
    unfolding add_def Let_def DF object.case attr_x_value
    apply (subst attr_y_value [symmetric])
    apply (subst attr_mp_value [symmetric])
    apply (simp add: store_def np_array_def split_def)
    done
  then show ?thesis
    using DF
    by (cases "same_interval (arrays h ! x) (profile_x (value_of h f))"; cases "profile_y (value_of h f)";
        cases "profile_mp (value_of h f)")
       (auto simp: value_of_def bindE_def split: sum.splits prod.splits)
qed


lemma take_eq_nth: "take n xs = ys \<Longrightarrow> i < length ys \<Longrightarrow> xs ! i = ys ! i"
  by (metis length_take min_less_iff_conj nth_take)

lemma take_eq_length:
  assumes "take n xs = ys" "n = length ys"
  shows "length ys \<le> length xs"
proof -
  have "length (take n xs) = n"
    using assms by simp
  then show ?thesis
    using assms(2) by (simp add: min_def split: if_splits)
qed

lemma value_of_cong:
  assumes "objects h' ! p = objects h ! p"
    and "\<And>a. a \<in> set (refs (objects h ! p)) \<Longrightarrow> arrays h' ! a = arrays h ! a"
  shows "value_of h' p = value_of h p"
  using assms by (cases "objects h ! p") (simp_all add: value_of_def)

lemma wf_heap_refs:
  "wf_heap h \<Longrightarrow> p < length (objects h) \<Longrightarrow> a \<in> set (refs (objects h ! p)) \<Longrightarrow> a < length (arrays h)"
  by (simp add: wf_heap_def list_all_length in_set_conv_nth) (metis in_set_conv_nth list_all_length)

lemma value_of_extends:
  assumes "extends h' h" "wf_heap h" "p < length (objects h)"
  shows "value_of h' p = value_of h p" "objects h' ! p = objects h ! p"
proof -
  show ob: "objects h' ! p = objects h ! p"
    using assms(1,3) take_eq_nth [of "length (objects h)" "objects h'" "objects h" p]
    by (simp add: extends_def)
  show "value_of h' p = value_of h p"
  proof (rule value_of_cong [OF ob])
    fix a
    assume "a \<in> set (refs (objects h ! p))"
    then have "a < length (arrays h)"
      using assms(2,3) by (intro wf_heap_refs)
    then show "arrays h' ! a = arrays h ! a"
      using assms(1) take_eq_nth [of "length (arrays h)" "arrays h'" "arrays h" a]
      by (simp add: extends_def)
  qed
qed

lemma located_refs:
  "refs (located v n) = [n..<n + length (profile_arrays v)]"
  by (cases v) (simp_all add: upt_rec)

lemma value_of_store:
  assumes "self < length (objects h)"
  shows "value_of (store v self h) self = v"
  using assms by (cases v) (simp_all add: value_of_def store_def nth_append)

lemma accumulating_copy:
  assumes "copy self h = (r, h1)"
  shows "r = length (objects h)" "accumulating h h1" "value_of h1 r = value_of h self"
proof -
  show r: "r = length (objects h)"
    using assms by (simp add: copy_eq)
  have h1: "h1 = h\<lparr>arrays := arrays h @ profile_arrays (value_of h self),
                   objects := objects h @ [located (value_of h self) (length (arrays h))]\<rparr>"
    using assms by (simp add: copy_eq)
  show "accumulating h h1"
    by (simp add: accumulating_def extends_def h1 located_refs list_all_iff)
  show "value_of h1 r = value_of h self"
    unfolding r h1 by (cases "value_of h self") (simp_all add: value_of_def nth_append)
qed

lemma accumulating_store:
  assumes "accumulating hb h"
  shows "accumulating hb (store v (length (objects hb)) h)"
proof -
  have len: "length (objects h) = Suc (length (objects hb))"
    and ext: "extends h hb"
    using assms by (simp_all add: accumulating_def)
  have le: "length (arrays hb) \<le> length (arrays h)"
    using ext take_eq_length [of "length (arrays hb)" "arrays h" "arrays hb"] by (simp add: extends_def)
  have ne: "objects h \<noteq> []"
    using len by auto
  have last: "last ((objects h)[length (objects hb) := ob]) = ob" for ob
    using len ne by (simp add: last_conv_nth)
  have tk: "take (length (objects hb)) ((objects h)[length (objects hb) := ob]) = take (length (objects hb)) (objects h)" for ob
    by simp
  show ?thesis
    using ext le len
    by (simp add: accumulating_def extends_def store_def last tk located_refs list_all_iff)
qed

lemma imul_frame:
  "objects (imul a fac h) = objects h" "length (arrays (imul a fac h)) = length (arrays h)"
  "b \<noteq> a \<Longrightarrow> arrays (imul a fac h) ! b = arrays h ! b"
  "a < length (arrays h) \<Longrightarrow> arrays (imul a fac h) ! a = map (\<lambda>v. v * fac) (arrays h ! a)"
  "n \<le> a \<Longrightarrow> take n (arrays (imul a fac h)) = take n (arrays h)"
  by (simp_all add: imul_def)

lemma mul_scalar_frame:
  "objects (mul_scalar r fac h) = objects h" "length (arrays (mul_scalar r fac h)) = length (arrays h)"
  "b \<notin> set (refs (objects h ! r)) \<Longrightarrow> arrays (mul_scalar r fac h) ! b = arrays h ! b"
  by (cases "objects h ! r"; simp add: mul_scalar_def imul_frame)+

lemma mul_scalar_take:
  assumes "list_all (\<lambda>a. n \<le> a) (refs (objects h ! r))"
  shows "take n (arrays (mul_scalar r fac h)) = take n (arrays h)"
  using assms by (cases "objects h ! r") (simp_all add: mul_scalar_def imul_frame)

lemma mul_scalar_value:
  assumes "list_all (\<lambda>a. a < length (arrays h)) (refs (objects h ! r))" "distinct (refs (objects h ! r))"
  shows "value_of (mul_scalar r fac h) r = rescale fac (value_of h r)"
  using assms
  by (cases "objects h ! r") (auto simp: value_of_def mul_scalar_def imul_def)

lemma accumulating_mul_scalar:
  assumes "accumulating hb h"
  shows "accumulating hb (mul_scalar (length (objects hb)) fac h)"
    and "value_of (mul_scalar (length (objects hb)) fac h) (length (objects hb)) = rescale fac (value_of h (length (objects hb)))"
proof -
  let ?r = "length (objects hb)"
  have len: "length (objects h) = Suc ?r" and ext: "extends h hb"
    and rng: "list_all (\<lambda>a. length (arrays hb) \<le> a \<and> a < length (arrays h)) (refs (last (objects h)))"
    and dis: "distinct (refs (last (objects h)))"
    using assms by (simp_all add: accumulating_def)
  have ne: "objects h \<noteq> []"
    using len by auto
  have last: "last (objects h) = objects h ! ?r"
    using len ne by (simp add: last_conv_nth)
  have lo: "list_all (\<lambda>a. length (arrays hb) \<le> a) (refs (objects h ! ?r))"
    and hi: "list_all (\<lambda>a. a < length (arrays h)) (refs (objects h ! ?r))"
    using rng by (simp_all add: last list_all_iff)
  show "accumulating hb (mul_scalar ?r fac h)"
    using ext len rng dis
    by (simp add: accumulating_def extends_def mul_scalar_frame mul_scalar_take [OF lo])
  show "value_of (mul_scalar ?r fac h) ?r = rescale fac (value_of h ?r)"
    using hi dis by (intro mul_scalar_value) (simp_all add: last)
qed


declare add_profiles.simps [simp del]

lemma add_profiles_eq:
  assumes wf: "wf_heap hb" and ps: "list_all (\<lambda>p. p < length (objects hb)) profiles"
    and acc: "accumulating hb h" and i: "i \<le> length profiles"
  shows "case merge_all bk (value_of h (length (objects hb))) (map (value_of hb) (drop i profiles)) of
           Inl err \<Rightarrow> add_profiles bk (length (objects hb)) profiles i h = Inl err
         | Inr v \<Rightarrow> \<exists>h'. add_profiles bk (length (objects hb)) profiles i h = Inr h'
                       \<and> accumulating hb h' \<and> value_of h' (length (objects hb)) = v"
  using acc i
proof (induction "length profiles - i" arbitrary: i h)
  case 0
  then have "i = length profiles" by simp
  then show ?case
    using "0.prems"(1) by (subst add_profiles.simps) simp
next
  case (Suc d)
  let ?r = "length (objects hb)"
  have il: "i < length profiles"
    using Suc.hyps(2) by simp
  have dr: "drop i profiles = profiles ! i # drop (Suc i) profiles"
    using il by (simp add: Cons_nth_drop_Suc)
  have pi: "profiles ! i < length (objects hb)"
    using ps il by (simp add: list_all_length)
  have ext: "extends h hb" and len: "length (objects h) = Suc ?r"
    using Suc.prems(1) by (simp_all add: accumulating_def)
  have vi: "value_of h (profiles ! i) = value_of hb (profiles ! i)"
    using ext wf pi by (rule value_of_extends)
  show ?case
  proof (cases "merge bk (value_of h ?r) (value_of hb (profiles ! i))")
    case (Inl err)
    then show ?thesis
      using il by (subst add_profiles.simps) (simp add: dr add_eq_merge vi)
  next
    case (Inr v)
    have acc': "accumulating hb (store v ?r h)"
      using Suc.prems(1) by (rule accumulating_store)
    have v': "value_of (store v ?r h) ?r = v"
      using len by (intro value_of_store) simp
    have step: "add_profiles bk ?r profiles i h = add_profiles bk ?r profiles (Suc i) (store v ?r h)"
      using il Inr by (subst add_profiles.simps) (simp add: add_eq_merge vi)
    have "d = length profiles - Suc i"
      using Suc.hyps(2) by simp
    from Suc.hyps(1) [OF this acc'] il
    show ?thesis
      by (cases "merge_all bk v (map (value_of hb) (drop (Suc i) profiles))")
         (simp_all add: step dr Inr v')
  qed
qed


text \<open>
  Claim C8. \<open>average_profile\<close> fails its \<open>assert\<close> when fewer than two profiles are
  given. For at least two profiles (objects of a well-formed store) it returns a new
  object; its value is the value of the first profile, merged with each further profile
  by \<open>add\<close> from left to right and rescaled by \<open>1/len(profiles)\<close>; when an \<open>add\<close>
  raises, so does \<open>average_profile\<close>. The store it leaves extends the one it found:
  every profile given, the first included, is unchanged.
\<close>

theorem average_profile_folds:
  "(length profiles < 2 \<longrightarrow> average_profile bk profiles h = Inl AssertionError)
   \<and> (2 \<le> length profiles \<and> wf_heap h \<and> list_all (\<lambda>p. p < length (objects h)) profiles \<longrightarrow>
        (case merge_all bk (value_of h (profiles ! 0)) (map (value_of h) (drop 1 profiles)) of
           Inl err \<Rightarrow> average_profile bk profiles h = Inl err
         | Inr v \<Rightarrow>
             \<exists>h'. average_profile bk profiles h = Inr (length (objects h), h')
                \<and> value_of h' (length (objects h)) = rescale (1 / real (length profiles)) v
                \<and> extends h' h
                \<and> map (value_of h') profiles = map (value_of h) profiles))"
proof (intro conjI impI)
  assume "length profiles < 2"
  then show "average_profile bk profiles h = Inl AssertionError"
    by (simp add: average_profile_def)
next
  assume a: "2 \<le> length profiles \<and> wf_heap h \<and> list_all (\<lambda>p. p < length (objects h)) profiles"
  then have n: "2 \<le> length profiles" and wf: "wf_heap h"
    and ps: "list_all (\<lambda>p. p < length (objects h)) profiles"
    by simp_all
  let ?r = "length (objects h)"
  obtain h1 where c: "copy (profiles ! 0) h = (?r, h1)"
    by (simp add: copy_eq)
  note C = accumulating_copy [OF c]
  have loop: "case merge_all bk (value_of h1 ?r) (map (value_of h) (drop 1 profiles)) of
           Inl err \<Rightarrow> add_profiles bk ?r profiles 1 h1 = Inl err
         | Inr v \<Rightarrow> \<exists>h'. add_profiles bk ?r profiles 1 h1 = Inr h'
                       \<and> accumulating h h' \<and> value_of h' ?r = v"
    using n by (intro add_profiles_eq [OF wf ps C(2)]) simp
  show "case merge_all bk (value_of h (profiles ! 0)) (map (value_of h) (drop 1 profiles)) of
           Inl err \<Rightarrow> average_profile bk profiles h = Inl err
         | Inr v \<Rightarrow>
             \<exists>h'. average_profile bk profiles h = Inr (?r, h')
                \<and> value_of h' ?r = rescale (1 / real (length profiles)) v
                \<and> extends h' h
                \<and> map (value_of h') profiles = map (value_of h) profiles"
  proof (cases "merge_all bk (value_of h (profiles ! 0)) (map (value_of h) (drop 1 profiles))")
    case (Inl err)
    then show ?thesis
      using loop n by (simp add: average_profile_def c C(3))
  next
    case (Inr v)
    then obtain h2 where l: "add_profiles bk ?r profiles 1 h1 = Inr h2"
      and acc: "accumulating h h2" and v: "value_of h2 ?r = v"
      using loop by (auto simp: C(3))
    let ?h3 = "mul_scalar ?r (1 / real (length profiles)) h2"
    note M = accumulating_mul_scalar [OF acc, of "1 / real (length profiles)"]
    have ext: "extends ?h3 h"
      using M(1) by (simp add: accumulating_def)
    have "map (value_of ?h3) profiles = map (value_of h) profiles"
    proof (rule map_cong [OF refl])
      fix p
      assume "p \<in> set profiles"
      then have "p < length (objects h)"
        using ps by (simp add: list_all_iff)
      with ext wf show "value_of ?h3 p = value_of h p"
        by (rule value_of_extends)
    qed
    then show ?thesis
      using n Inr l v M(2) ext by (simp add: average_profile_def c)
  qed
qed


theorem average_profile_folds_witness:
  "average_profile
     \<lparr>add_piece_wise_const_impl = (\<lambda>x y fx fy. Inr (x, map2 (+) y fy)),
      add_piece_wise_lin_impl = (\<lambda>x y1 y2 fx fy1 fy2. Inl ValueError),
      add_discrete_function_impl = (\<lambda>x y mp fx fy fmp. Inl ValueError)\<rparr>
     [0]
     \<lparr>arrays = [[0, 1, 2, 3], [1, 2, 3], [0, 1, 2, 3], [5, 0, 1]], objects = [PWC 0 1, PWC 2 3]\<rparr>
   = Inl AssertionError
   \<and> (\<exists>h'. average_profile
            \<lparr>add_piece_wise_const_impl = (\<lambda>x y fx fy. Inr (x, map2 (+) y fy)),
             add_piece_wise_lin_impl = (\<lambda>x y1 y2 fx fy1 fy2. Inl ValueError),
             add_discrete_function_impl = (\<lambda>x y mp fx fy fmp. Inl ValueError)\<rparr>
            [0, 1]
            \<lparr>arrays = [[0, 1, 2, 3], [1, 2, 3], [0, 1, 2, 3], [5, 0, 1]], objects = [PWC 0 1, PWC 2 3]\<rparr>
          = Inr (2, h')
        \<and> value_of h' 2 = ConstP \<lparr>pwc_x = [0, 1, 2, 3], pwc_y = [3, 1, 2]\<rparr>
        \<and> value_of h' 0 = ConstP \<lparr>pwc_x = [0, 1, 2, 3], pwc_y = [1, 2, 3]\<rparr>
        \<and> value_of h' 1 = ConstP \<lparr>pwc_x = [0, 1, 2, 3], pwc_y = [5, 0, 1]\<rparr>)"
proof
  let ?bk = "\<lparr>add_piece_wise_const_impl = (\<lambda>x y fx fy. Inr (x, map2 (+) y fy)),
      add_piece_wise_lin_impl = (\<lambda>x y1 y2 fx fy1 fy2. Inl ValueError),
      add_discrete_function_impl = (\<lambda>x y mp fx fy fmp. Inl ValueError)\<rparr> :: backend"
  let ?h = "\<lparr>arrays = [[0, 1, 2, 3], [1, 2, 3], [0, 1, 2, 3], [5, 0, 1]], objects = [PWC 0 1, PWC 2 3]\<rparr> :: heap"
  show "average_profile ?bk [0] ?h = Inl AssertionError"
    using average_profile_folds [of "[0]" ?bk ?h] by simp
  have pre: "2 \<le> length [0, 1 :: nat] \<and> wf_heap ?h \<and> list_all (\<lambda>p. p < length (objects ?h)) [0, 1]"
    by (simp add: wf_heap_def)
  have m: "merge_all ?bk (value_of ?h ([0, 1] ! 0)) (map (value_of ?h) (drop 1 [0, 1]))
           = Inr (ConstP \<lparr>pwc_x = [0, 1, 2, 3], pwc_y = [6, 2, 4]\<rparr>)"
    by (simp add: value_of_def same_interval_def py_index_def)
  have v0: "value_of ?h 0 = ConstP \<lparr>pwc_x = [0, 1, 2, 3], pwc_y = [1, 2, 3]\<rparr>"
    and v1: "value_of ?h 1 = ConstP \<lparr>pwc_x = [0, 1, 2, 3], pwc_y = [5, 0, 1]\<rparr>"
    by (simp_all add: value_of_def)
  note t = conjunct2 [OF average_profile_folds [of "[0, 1]" ?bk ?h], THEN mp, OF pre]
  have "\<exists>h'. average_profile ?bk [0, 1] ?h = Inr (length (objects ?h), h')
            \<and> value_of h' (length (objects ?h))
                = rescale (1 / real (length [0, 1 :: nat])) (ConstP \<lparr>pwc_x = [0, 1, 2, 3], pwc_y = [6, 2, 4]\<rparr>)
            \<and> extends h' ?h
            \<and> map (value_of h') [0, 1] = map (value_of ?h) [0, 1]"
    using t unfolding m by (simp only: sum.case)
  then obtain h' where r: "average_profile ?bk [0, 1] ?h = Inr (length (objects ?h), h')"
    and v: "value_of h' (length (objects ?h))
                = rescale (1 / real (length [0, 1 :: nat])) (ConstP \<lparr>pwc_x = [0, 1, 2, 3], pwc_y = [6, 2, 4]\<rparr>)"
    and u: "map (value_of h') [0, 1] = map (value_of ?h) [0, 1]"
    by blast
  have "average_profile ?bk [0, 1] ?h = Inr (2, h')"
    using r by simp
  moreover have "value_of h' 2 = ConstP \<lparr>pwc_x = [0, 1, 2, 3], pwc_y = [3, 1, 2]\<rparr>"
    using v by (simp add: numeral_2_eq_2)
  moreover have "value_of h' 0 = ConstP \<lparr>pwc_x = [0, 1, 2, 3], pwc_y = [1, 2, 3]\<rparr>"
    and "value_of h' 1 = ConstP \<lparr>pwc_x = [0, 1, 2, 3], pwc_y = [5, 0, 1]\<rparr>"
    using u v0 v1 by simp_all
  ultimately show "\<exists>h'. average_profile ?bk [0, 1] ?h = Inr (2, h')
        \<and> value_of h' 2 = ConstP \<lparr>pwc_x = [0, 1, 2, 3], pwc_y = [3, 1, 2]\<rparr>
        \<and> value_of h' 0 = ConstP \<lparr>pwc_x = [0, 1, 2, 3], pwc_y = [1, 2, 3]\<rparr>
        \<and> value_of h' 1 = ConstP \<lparr>pwc_x = [0, 1, 2, 3], pwc_y = [5, 0, 1]\<rparr>"
    by blast
qed

lemma np_allclose_same: "0 \<le> atol \<Longrightarrow> np_allclose a a atol = Inr True"
  by (auto simp: np_allclose_def np_binop_def list_all_iff zip_same)

lemma almost_equal_same: "almost_equal v v = Inr True"
  by (cases v) (simp_all add: np_allclose_same eps_def)


text \<open>
  Claim C9. For an object of any of the three classes, \<open>copy\<close> returns a new object
  with the value of the original, \<open>almost_equal\<close> to it, that shares no array with it:
  \<open>mul_scalar\<close> or \<open>add\<close> on the copy leave the value of the original unchanged, and
  \<open>mul_scalar\<close> or \<open>add\<close> on the original leave the value of the copy unchanged.
\<close>

theorem copy_independent:
  assumes wf: "wf_heap h" and self: "self < length (objects h)" and c: "copy self h = (c, h1)"
  shows "c = length (objects h) \<and> extends h1 h
         \<and> value_of h1 c = value_of h self \<and> value_of h1 self = value_of h self
         \<and> almost_equal (value_of h1 c) (value_of h1 self) = Inr True
         \<and> set (refs (objects h1 ! c)) \<inter> set (refs (objects h1 ! self)) = {}
         \<and> (\<forall>fac. value_of (mul_scalar c fac h1) self = value_of h self
                  \<and> value_of (mul_scalar self fac h1) c = value_of h1 c)
         \<and> (\<forall>f h2. add bk c f h1 = Inr h2 \<longrightarrow> value_of h2 self = value_of h self)
         \<and> (\<forall>f h2. add bk self f h1 = Inr h2 \<longrightarrow> value_of h2 c = value_of h1 c)"
proof -
  note C = accumulating_copy [OF c]
  have ext: "extends h1 h" and len: "length (objects h1) = Suc (length (objects h))"
    and rng: "list_all (\<lambda>a. length (arrays h) \<le> a \<and> a < length (arrays h1)) (refs (last (objects h1)))"
    using C(2) by (simp_all add: accumulating_def)
  have ne: "objects h1 \<noteq> []"
    using len by auto
  have last: "last (objects h1) = objects h1 ! c"
    using len ne by (simp add: last_conv_nth C(1))
  have crefs: "length (arrays h) \<le> a \<and> a < length (arrays h1)" if "a \<in> set (refs (objects h1 ! c))" for a
    using rng that by (simp add: last list_all_iff)
  note S = value_of_extends [OF ext wf self]
  have srefs: "a < length (arrays h)" if "a \<in> set (refs (objects h1 ! self))" for a
    using that wf_heap_refs [OF wf self, of a] by (simp add: S(2))
  have disj: "set (refs (objects h1 ! c)) \<inter> set (refs (objects h1 ! self)) = {}"
    using crefs srefs by fastforce
  have neq: "self \<noteq> c"
    using self C(1) by simp
  have m1: "value_of (mul_scalar c fac h1) self = value_of h self" for fac
  proof -
    have "extends (mul_scalar c fac h1) h"
      using accumulating_mul_scalar(1) [OF C(2), of fac] by (simp add: accumulating_def C(1))
    then show ?thesis
      using wf self by (rule value_of_extends)
  qed
  have m2: "value_of (mul_scalar self fac h1) c = value_of h1 c" for fac
  proof (rule value_of_cong)
    show "objects (mul_scalar self fac h1) ! c = objects h1 ! c"
      by (simp add: mul_scalar_frame)
    fix a
    assume "a \<in> set (refs (objects h1 ! c))"
    then have "a \<notin> set (refs (objects h1 ! self))"
      using disj by auto
    then show "arrays (mul_scalar self fac h1) ! a = arrays h1 ! a"
      by (rule mul_scalar_frame)
  qed
  have a1: "value_of h2 self = value_of h self" if "add bk c f h1 = Inr h2" for f h2
  proof -
    from that have "bindE (merge bk (value_of h1 c) (value_of h1 f)) (\<lambda>v. Inr (store v c h1)) = Inr h2"
      by (simp only: add_eq_merge)
    then obtain v where "h2 = store v c h1"
      by (cases "merge bk (value_of h1 c) (value_of h1 f)") auto
    then have "accumulating h h2"
      using accumulating_store [OF C(2), of v] by (simp add: C(1))
    then have "extends h2 h"
      by (simp add: accumulating_def)
    then show ?thesis
      using wf self by (rule value_of_extends)
  qed
  have a2: "value_of h2 c = value_of h1 c" if "add bk self f h1 = Inr h2" for f h2
  proof -
    from that have "bindE (merge bk (value_of h1 self) (value_of h1 f)) (\<lambda>v. Inr (store v self h1)) = Inr h2"
      by (simp only: add_eq_merge)
    then obtain v where h2: "h2 = store v self h1"
      by (cases "merge bk (value_of h1 self) (value_of h1 f)") auto
    show ?thesis
    proof (rule value_of_cong)
      show "objects h2 ! c = objects h1 ! c"
        using neq by (simp add: h2 store_def)
      fix a
      assume "a \<in> set (refs (objects h1 ! c))"
      then have "a < length (arrays h1)"
        using crefs by simp
      then show "arrays h2 ! a = arrays h1 ! a"
        by (simp add: h2 store_def nth_append)
    qed
  qed
  show ?thesis
    using C(1) ext C(3) S(1) disj m1 m2 a1 a2
    by (simp add: almost_equal_same)
qed


theorem copy_independent_witness:
  "copy 0 \<lparr>arrays = [[0, 1, 2, 3], [1, 2, 3], [0, 1, 2, 3], [5, 0, 1]], objects = [PWC 0 1, PWC 2 3]\<rparr>
     = (2, \<lparr>arrays = [[0, 1, 2, 3], [1, 2, 3], [0, 1, 2, 3], [5, 0, 1], [0, 1, 2, 3], [1, 2, 3]], objects = [PWC 0 1, PWC 2 3, PWC 4 5]\<rparr>)
   \<and> almost_equal (value_of \<lparr>arrays = [[0, 1, 2, 3], [1, 2, 3], [0, 1, 2, 3], [5, 0, 1], [0, 1, 2, 3], [1, 2, 3]], objects = [PWC 0 1, PWC 2 3, PWC 4 5]\<rparr> 2)
        (value_of \<lparr>arrays = [[0, 1, 2, 3], [1, 2, 3], [0, 1, 2, 3], [5, 0, 1], [0, 1, 2, 3], [1, 2, 3]], objects = [PWC 0 1, PWC 2 3, PWC 4 5]\<rparr> 0) = Inr True
   \<and> value_of (mul_scalar 2 3 \<lparr>arrays = [[0, 1, 2, 3], [1, 2, 3], [0, 1, 2, 3], [5, 0, 1], [0, 1, 2, 3], [1, 2, 3]], objects = [PWC 0 1, PWC 2 3, PWC 4 5]\<rparr>) 0
     = ConstP \<lparr>pwc_x = [0, 1, 2, 3], pwc_y = [1, 2, 3]\<rparr>
   \<and> value_of (mul_scalar 2 3 \<lparr>arrays = [[0, 1, 2, 3], [1, 2, 3], [0, 1, 2, 3], [5, 0, 1], [0, 1, 2, 3], [1, 2, 3]], objects = [PWC 0 1, PWC 2 3, PWC 4 5]\<rparr>) 2
     = ConstP \<lparr>pwc_x = [0, 1, 2, 3], pwc_y = [3, 6, 9]\<rparr>
   \<and> value_of (mul_scalar 0 3 \<lparr>arrays = [[0, 1, 2, 3], [1, 2, 3], [0, 1, 2, 3], [5, 0, 1], [0, 1, 2, 3], [1, 2, 3]], objects = [PWC 0 1, PWC 2 3, PWC 4 5]\<rparr>) 2
     = ConstP \<lparr>pwc_x = [0, 1, 2, 3], pwc_y = [1, 2, 3]\<rparr>
   \<and> add
       \<lparr>add_piece_wise_const_impl = (\<lambda>x y fx fy. Inr (x, map2 (+) y fy)),
        add_piece_wise_lin_impl = (\<lambda>x y1 y2 fx fy1 fy2. Inl ValueError),
        add_discrete_function_impl = (\<lambda>x y mp fx fy fmp. Inl ValueError)\<rparr>
       2 1 \<lparr>arrays = [[0, 1, 2, 3], [1, 2, 3], [0, 1, 2, 3], [5, 0, 1], [0, 1, 2, 3], [1, 2, 3]], objects = [PWC 0 1, PWC 2 3, PWC 4 5]\<rparr>
     = Inr \<lparr>arrays = [[0, 1, 2, 3], [1, 2, 3], [0, 1, 2, 3], [5, 0, 1], [0, 1, 2, 3], [1, 2, 3], [0, 1, 2, 3], [6, 2, 4]], objects = [PWC 0 1, PWC 2 3, PWC 6 7]\<rparr>
   \<and> value_of \<lparr>arrays = [[0, 1, 2, 3], [1, 2, 3], [0, 1, 2, 3], [5, 0, 1], [0, 1, 2, 3], [1, 2, 3], [0, 1, 2, 3], [6, 2, 4]], objects = [PWC 0 1, PWC 2 3, PWC 6 7]\<rparr> 0
     = ConstP \<lparr>pwc_x = [0, 1, 2, 3], pwc_y = [1, 2, 3]\<rparr>"
proof -
  let ?h = "\<lparr>arrays = [[0, 1, 2, 3], [1, 2, 3], [0, 1, 2, 3], [5, 0, 1]], objects = [PWC 0 1, PWC 2 3]\<rparr> :: heap"
  let ?h1 = "\<lparr>arrays = [[0, 1, 2, 3], [1, 2, 3], [0, 1, 2, 3], [5, 0, 1], [0, 1, 2, 3], [1, 2, 3]], objects = [PWC 0 1, PWC 2 3, PWC 4 5]\<rparr> :: heap"
  let ?h2 = "\<lparr>arrays = [[0, 1, 2, 3], [1, 2, 3], [0, 1, 2, 3], [5, 0, 1], [0, 1, 2, 3], [1, 2, 3], [0, 1, 2, 3], [6, 2, 4]], objects = [PWC 0 1, PWC 2 3, PWC 6 7]\<rparr> :: heap"
  let ?bk = "\<lparr>add_piece_wise_const_impl = (\<lambda>x y fx fy. Inr (x, map2 (+) y fy)),
        add_piece_wise_lin_impl = (\<lambda>x y1 y2 fx fy1 fy2. Inl ValueError),
        add_discrete_function_impl = (\<lambda>x y mp fx fy fmp. Inl ValueError)\<rparr> :: backend"
  have wf: "wf_heap ?h"
    by (simp add: wf_heap_def)
  have self: "0 < length (objects ?h)"
    by simp
  have c: "copy 0 ?h = (2, ?h1)"
    by (simp add: copy_eq value_of_def)
  have a: "add ?bk 2 1 ?h1 = Inr ?h2"
    by (simp add: add_eq_merge value_of_def same_interval_def py_index_def store_def)
  have v: "value_of ?h 0 = ConstP \<lparr>pwc_x = [0, 1, 2, 3], pwc_y = [1, 2, 3]\<rparr>"
    by (simp add: value_of_def)
  have v1: "value_of ?h1 2 = ConstP \<lparr>pwc_x = [0, 1, 2, 3], pwc_y = [1, 2, 3]\<rparr>"
    by (simp add: value_of_def)
  have m: "value_of (mul_scalar 2 3 ?h1) 2 = ConstP \<lparr>pwc_x = [0, 1, 2, 3], pwc_y = [3, 6, 9]\<rparr>"
    by (simp add: value_of_def mul_scalar_def imul_def)
  note T = copy_independent [OF wf self c, of ?bk]
  have "almost_equal (value_of ?h1 2) (value_of ?h1 0) = Inr True"
    using T by blast
  moreover have "value_of (mul_scalar 2 3 ?h1) 0 = value_of ?h 0"
    and "value_of (mul_scalar 0 3 ?h1) 2 = value_of ?h1 2"
    using T by blast+
  moreover have "value_of ?h2 0 = value_of ?h 0"
    using T a by blast
  ultimately show ?thesis
    using c a m by (simp only: v v1 simp_thms)
qed

end
